theory Spec2Isabelle
  imports Complex_Main "HOL-Library.Multiset" "HOL-Library.Log_Nat"
begin

section \<open>Numbers, rectangles and constants\<close>

text \<open>
  A JavaScript number is a double. The model keeps every number as the real number it
  denotes. NaN and the infinities are not numbers of the model; the scroll animation, which
  computes them from a duration of zero, treats them by cases.
\<close>

definition Math_floor :: "real \<Rightarrow> real" where
  "Math_floor v = of_int \<lfloor>v\<rfloor>"

definition Math_round :: "real \<Rightarrow> real" where
  \<comment> \<open>\<open>Math.round\<close> rounds halves towards plus infinity.\<close>
  "Math_round v = of_int \<lfloor>v + 1 / 2\<rfloor>"

definition Math_abs :: "real \<Rightarrow> real" where
  "Math_abs v = \<bar>v\<bar>"

definition Math_max :: "real \<Rightarrow> real \<Rightarrow> real" where
  "Math_max a b = max a b"

definition Math_min :: "real \<Rightarrow> real \<Rightarrow> real" where
  "Math_min a b = min a b"

subsection \<open>Double arithmetic\<close>

text \<open>
  The result of an arithmetic operation on doubles is the exact result rounded to the
  nearest double, a tie going to the even significand. \<open>round_half_even\<close> rounds a real
  to an integer in that way. A double is an integer multiple of \<open>2 ^ -1074\<close> with at most
  53 significant bits: \<open>round_53\<close> rounds a real, scaled by \<open>2 ^ 1074\<close>, to 53
  significant bits and never finer than the integers, and \<open>double_exponent\<close> is the
  number of low bits it drops. Results of magnitude \<open>2 ^ 1024\<close> and more, which overflow
  to an infinity, are outside the model. The phase classifier, the effective work area, the
  fixed-step scroll and the scroll animation compute with the four rounded operations.
\<close>

definition round_half_even :: "real \<Rightarrow> int" where
  "round_half_even r =
     (let f = \<lfloor>r\<rfloor>; d = r - of_int f
      in if d < 1 / 2 then f else if 1 / 2 < d then f + 1 else if even f then f else f + 1)"

definition double_exponent :: "real \<Rightarrow> nat" where
  "double_exponent y = nat (bitlen \<lfloor>\<bar>y\<bar>\<rfloor> - 53)"

definition round_53 :: "real \<Rightarrow> real" where
  "round_53 y =
     of_int (round_half_even (y / 2 ^ double_exponent y)) * 2 ^ double_exponent y"

definition subnormal_bits :: nat where
  "subnormal_bits = 1074"

definition round_double :: "real \<Rightarrow> real" where
  "round_double v = round_53 (v * 2 ^ subnormal_bits) / 2 ^ subnormal_bits"

definition double_add :: "real \<Rightarrow> real \<Rightarrow> real" where
  "double_add a b = round_double (a + b)"

definition double_sub :: "real \<Rightarrow> real \<Rightarrow> real" where
  "double_sub a b = round_double (a - b)"

definition double_mul :: "real \<Rightarrow> real \<Rightarrow> real" where
  "double_mul a b = round_double (a * b)"

definition double_div :: "real \<Rightarrow> real \<Rightarrow> real" where
  \<comment> \<open>For a divisor other than zero; a function that can divide by zero treats that case itself.\<close>
  "double_div a b = round_double (a / b)"

record Rect =
  rect_x :: real
  rect_y :: real
  rect_width :: real
  rect_height :: real

text \<open>
  The constants module. \<open>WINDOW_SPACING\<close> is declared there with the value 8. The canvas
  module also reads \<open>constants.CANVAS_EXPANSION_RATIO\<close>, \<open>constants.CANVAS_PAN_LEFT\<close>,
  \<open>constants.CANVAS_PAN_RIGHT\<close> and \<open>constants.VIEWPORT_SCROLL_DURATION_MS\<close>, whose
  declarations are not among the sources; they are the fields of a record that every
  function reading them takes as its first argument.
\<close>

definition WINDOW_SPACING :: real where
  "WINDOW_SPACING = 8"

record constants =
  CANVAS_EXPANSION_RATIO :: real
  CANVAS_PAN_LEFT :: real
  CANVAS_PAN_RIGHT :: real
  VIEWPORT_SCROLL_DURATION_MS :: real

section \<open>Layout phases\<close>

datatype CanvasPhase = PHASE_1 | PHASE_2 | PHASE_3

fun phase_number :: "CanvasPhase \<Rightarrow> nat" where
  "phase_number PHASE_1 = 1"
| "phase_number PHASE_2 = 2"
| "phase_number PHASE_3 = 3"

text \<open>
  What \<open>calculatePhase\<close> looks at in an element of its \<open>windows\<close> array: a numeric
  \<open>width\<close> property; otherwise a \<open>get_frame_rect\<close> function, whose result may be null;
  otherwise nothing.
\<close>

datatype WindowLike =
    NumericWidth real
  | FrameRectFn "Rect option"
  | NoWidth

fun window_width :: "WindowLike \<Rightarrow> real" where
  "window_width (NumericWidth v) = v"
| "window_width (FrameRectFn (Some rect)) = rect_width rect"
| "window_width (FrameRectFn None) = 0"
| "window_width NoWidth = 0"

text \<open>A missing \<open>windows\<close> argument (null or undefined) is \<open>None\<close>.\<close>

definition calculatePhase :: "constants \<Rightarrow> WindowLike list option \<Rightarrow> Rect \<Rightarrow> CanvasPhase" where
  "calculatePhase c windows workArea =
     (case windows of
        None \<Rightarrow> PHASE_1
      | Some ws \<Rightarrow>
          if length ws = 0 then PHASE_1
          else
            let totalWidth = foldl (\<lambda>sum w. double_add sum (window_width w)) 0 ws;
                spacing = double_mul (double_add (real (length ws)) 1) WINDOW_SPACING;
                totalNeeded = double_add totalWidth spacing;
                workAreaWidth = rect_width workArea;
                canvasWidth = double_mul workAreaWidth (CANVAS_EXPANSION_RATIO c)
            in if totalNeeded \<le> workAreaWidth then PHASE_1
               else if totalNeeded \<le> canvasWidth then PHASE_2
               else PHASE_3)"

definition getEffectiveWorkArea :: "constants \<Rightarrow> Rect \<Rightarrow> CanvasPhase \<Rightarrow> Rect" where
  "getEffectiveWorkArea c workArea phase =
     (if phase = PHASE_3 then workArea
      else if phase = PHASE_1 then workArea
      else
        let extraWidth = double_mul (rect_width workArea) (double_sub (CANVAS_EXPANSION_RATIO c) 1);
            halfExtra = double_div extraWidth 2
        in \<lparr> rect_x = double_sub (rect_x workArea) halfExtra,
             rect_y = rect_y workArea,
             rect_width = double_add (rect_width workArea) extraWidth,
             rect_height = rect_height workArea \<rparr>)"

definition shouldApplySmartResize :: "CanvasPhase \<Rightarrow> bool" where
  "shouldApplySmartResize phase = (phase = PHASE_3)"

section \<open>Viewport clamp\<close>

definition clampViewportX :: "constants \<Rightarrow> real \<Rightarrow> Rect \<Rightarrow> real" where
  "clampViewportX c v workArea =
     (let maxPanLeft = - (rect_width workArea * CANVAS_PAN_LEFT c);
          maxPanRight = rect_width workArea * CANVAS_PAN_RIGHT c
      in Math_max maxPanLeft (Math_min v maxPanRight))"

section \<open>Compositor actors, windows and workspaces\<close>

text \<open>
  The part of a Clutter actor that the canvas manager reads and writes: opacity, position,
  translation, the clip rectangle (\<open>None\<close> when there is no clip), whether transitions are
  in flight, and whether a relayout has been queued.
\<close>

record Actor =
  opacity :: real
  actor_x :: real
  actor_y :: real
  translation_x :: real
  translation_y :: real
  translation_z :: real
  clip :: "(real \<times> real \<times> real \<times> real) option"
  transitions :: bool
  relayout_queued :: bool

definition remove_all_transitions :: "Actor \<Rightarrow> Actor" where
  "remove_all_transitions a = a\<lparr>transitions := False\<rparr>"

definition set_translation :: "real \<Rightarrow> real \<Rightarrow> real \<Rightarrow> Actor \<Rightarrow> Actor" where
  "set_translation tx ty tz a = a\<lparr>translation_x := tx, translation_y := ty, translation_z := tz\<rparr>"

definition set_position :: "real \<Rightarrow> real \<Rightarrow> Actor \<Rightarrow> Actor" where
  "set_position px py a = a\<lparr>actor_x := px, actor_y := py\<rparr>"

definition remove_clip :: "Actor \<Rightarrow> Actor" where
  "remove_clip a = a\<lparr>clip := None\<rparr>"

definition set_clip :: "real \<Rightarrow> real \<Rightarrow> real \<Rightarrow> real \<Rightarrow> Actor \<Rightarrow> Actor" where
  "set_clip cx cy cw ch a = a\<lparr>clip := Some (cx, cy, cw, ch)\<rparr>"

definition queue_relayout :: "Actor \<Rightarrow> Actor" where
  "queue_relayout a = a\<lparr>relayout_queued := True\<rparr>"

record Workspace =
  ws_index :: nat
  work_area_for_monitor :: "nat \<Rightarrow> Rect"

datatype WindowType = NORMAL | OTHER_WINDOW_TYPE

record Viewport =
  vp_x :: real
  vp_width :: real

record Point =
  pos_x :: real
  pos_y :: real

text \<open>
  A \<open>Meta.Window\<close> as the manager sees it. The two correction properties and the two
  registration ids are properties the manager itself attaches to the window object;
  an absent (undefined or null) property is \<open>None\<close>. \<open>pending_clip\<close> holds the target
  and viewport captured by the armed \<open>applyClipOnce\<close> callback.
\<close>

record MetaWindow =
  win_id :: nat
  frame_rect :: Rect
  buffer_rect :: Rect
  compositor_private :: "Actor option"
  win_monitor :: nat
  win_workspace :: Workspace
  skip_taskbar :: bool
  window_type :: WindowType
  mosaicPositionCorrectionX :: "real option"
  mosaicPositionCorrectionY :: "real option"
  mosaicClipSignalId :: "nat option"
  mosaicClipTimeoutId :: "nat option"
  pending_clip :: "(Rect \<times> Viewport) option"

section \<open>Canvas state and the manager\<close>

record CanvasState =
  state_workArea :: Rect
  state_monitorIndex :: nat
  state_workspace :: Workspace
  viewportX :: real
  currentPhase :: CanvasPhase

definition new_CanvasState :: "Rect \<Rightarrow> nat \<Rightarrow> Workspace \<Rightarrow> CanvasState" where
  "new_CanvasState workArea monitorIndex workspace =
     \<lparr> state_workArea = workArea, state_monitorIndex = monitorIndex,
       state_workspace = workspace, viewportX = 0, currentPhase = PHASE_1 \<rparr>"

text \<open>Calls made to the external tiler, in the order they are made.\<close>

datatype TileRequest =
    TileForWindow nat string
  | TileForWorkspace nat nat

text \<open>
  The manager. \<open>canvasStates\<close> is keyed by workspace index and monitor index (the source
  joins the two numbers into a string key). \<open>has_tileManager\<close> says whether
  \<open>this._extension._tileManager\<close> is set, \<open>has_tilingManager\<close> whether
  \<open>this._tilingManager\<close> is; \<open>tile_requests\<close> records the calls to
  \<open>tileWorkspaceWindows\<close>.
\<close>

record ExtendedCanvasManager =
  canvasStates :: "(nat \<times> nat) \<rightharpoonup> CanvasState"
  scrollAnimationId :: "nat option"
  scrollOffset :: real
  scrollStep :: real
  clippedWindows :: "nat set"
  has_tileManager :: bool
  has_tilingManager :: bool
  tile_requests :: "TileRequest list"

definition getCanvasState ::
  "ExtendedCanvasManager \<Rightarrow> nat \<Rightarrow> Workspace \<Rightarrow> CanvasState \<times> ExtendedCanvasManager" where
  "getCanvasState m monitorIndex workspace =
     (let key = (ws_index workspace, monitorIndex) in
      case canvasStates m key of
        Some st \<Rightarrow> (st, m)
      | None \<Rightarrow>
          let workArea = work_area_for_monitor workspace monitorIndex;
              st = new_CanvasState workArea monitorIndex workspace
          in (st, m\<lparr>canvasStates := (canvasStates m)(key \<mapsto> st)\<rparr>))"

section \<open>Fixed-step scrolling\<close>

datatype js_error = ReferenceError string

text \<open>
  The callback that \<open>_requestRetile\<close> hands to \<open>filter\<close> is
  \<open>!w.is_skip_taskbar() && w.get_window_type() === Meta.WindowType.NORMAL\<close>. The module
  neither imports nor declares \<open>Meta\<close>, so for a window that is not skipped by the
  taskbar the right operand raises a \<open>ReferenceError\<close>; for a window that is, the left
  operand already decides and the callback returns false.
\<close>

definition retile_filter_callback :: "MetaWindow \<Rightarrow> js_error + bool" where
  "retile_filter_callback w =
     (if skip_taskbar w then Inr False else Inl (ReferenceError ''Meta''))"

text \<open>\<open>Array.prototype.filter\<close> with a callback that can raise: the first error ends it.\<close>

fun filter_raising :: "('a \<Rightarrow> js_error + bool) \<Rightarrow> 'a list \<Rightarrow> js_error + 'a list" where
  "filter_raising p [] = Inr []"
| "filter_raising p (v # vs) =
     (case p v of
        Inl e \<Rightarrow> Inl e
      | Inr keep \<Rightarrow>
          (case filter_raising p vs of
             Inl e \<Rightarrow> Inl e
           | Inr kept \<Rightarrow> Inr (if keep then v # kept else kept)))"

text \<open>
  \<open>_requestRetile\<close>: \<open>active_windows\<close> is what
  \<open>global.workspace_manager.get_active_workspace().list_windows()\<close> returns. The function
  returns the manager as it leaves it, and the error it raised, if any.
\<close>

definition requestRetile ::
  "MetaWindow list \<Rightarrow> ExtendedCanvasManager \<Rightarrow> ExtendedCanvasManager \<times> js_error option" where
  "requestRetile active_windows m =
     (if has_tileManager m then
        (case filter_raising retile_filter_callback active_windows of
           Inl e \<Rightarrow> (m, Some e)
         | Inr windows \<Rightarrow>
             (case windows of
                [] \<Rightarrow> (m, None)
              | w0 # _ \<Rightarrow>
                  (m\<lparr>tile_requests := tile_requests m @ [TileForWindow (win_id w0) ''scroll'']\<rparr>,
                   None)))
      else (m, None))"

text \<open>
  \<open>scrollLeft\<close> and \<open>scrollRight\<close> store the new offset before they call
  \<open>_requestRetile\<close>, so the offset is stored also when that call raises.
\<close>

definition scrollLeft ::
  "MetaWindow list \<Rightarrow> ExtendedCanvasManager \<Rightarrow> ExtendedCanvasManager \<times> js_error option" where
  "scrollLeft active_windows m =
     requestRetile active_windows (m\<lparr>scrollOffset := double_sub (scrollOffset m) (scrollStep m)\<rparr>)"

definition scrollRight ::
  "MetaWindow list \<Rightarrow> ExtendedCanvasManager \<Rightarrow> ExtendedCanvasManager \<times> js_error option" where
  "scrollRight active_windows m =
     requestRetile active_windows (m\<lparr>scrollOffset := double_add (scrollOffset m) (scrollStep m)\<rparr>)"

section \<open>Visual reconciliation\<close>

definition applyViewportClip ::
  "ExtendedCanvasManager \<Rightarrow> MetaWindow \<Rightarrow> Rect \<Rightarrow> Viewport
     \<Rightarrow> Point \<times> ExtendedCanvasManager \<times> MetaWindow" where
  "applyViewportClip m metaWindow targetPos viewport =
     (case compositor_private metaWindow of
        None \<Rightarrow> (\<lparr>pos_x = rect_x targetPos, pos_y = rect_y targetPos\<rparr>, m, metaWindow)
      | Some actor0 \<Rightarrow>
          let actor1 = (if opacity actor0 \<noteq> 255 then actor0\<lparr>opacity := 255\<rparr> else actor0);
              windowId = win_id metaWindow;
              bufferRect = buffer_rect metaWindow;
              frameRect = frame_rect metaWindow;
              offsetX = rect_x frameRect - rect_x bufferRect;
              offsetY = rect_y frameRect - rect_y bufferRect;
              expectedActorX = rect_x bufferRect;
              expectedActorY = rect_y bufferRect;
              currentActorX = Math_round (actor_x actor1);
              currentActorY = Math_round (actor_y actor1);
              currentTransX = translation_x actor1;
              currentTransY = translation_y actor1;
              visualX = currentActorX + Math_round currentTransX;
              visualY = currentActorY + Math_round currentTransY;
              actor2 =
                (if Math_abs (visualX - expectedActorX) > 1 \<or> Math_abs (visualY - expectedActorY) > 1
                 then set_position expectedActorX expectedActorY
                        (set_translation 0 0 0 (remove_all_transitions actor1))
                 else actor1);
              targetFrameLeft = Math_floor (rect_x targetPos + scrollOffset m);
              targetFrameRight = targetFrameLeft + Math_floor (rect_width targetPos);
              viewportLeft = Math_floor (vp_x viewport);
              viewportRight = Math_floor (vp_x viewport + vp_width viewport);
              clampedFrameX = (if targetFrameLeft < viewportLeft then viewportLeft else targetFrameLeft);
              translationX = targetFrameLeft - clampedFrameX
          in
            if translationX = 0 \<and> targetFrameRight \<le> viewportRight then
              let actor3 = set_translation 0 0 0 (remove_clip (remove_all_transitions actor2));
                  correctActorX = rect_x frameRect - offsetX;
                  correctActorY = rect_y frameRect - offsetY;
                  actor4 =
                    (if Math_abs (actor_x actor3 - correctActorX) > 1
                        \<or> Math_abs (actor_y actor3 - correctActorY) > 1
                     then set_position correctActorX correctActorY actor3
                     else actor3)
              in (\<lparr>pos_x = targetFrameLeft, pos_y = rect_y targetPos\<rparr>,
                  m\<lparr>clippedWindows := clippedWindows m - {windowId}\<rparr>,
                  metaWindow\<lparr>compositor_private := Some actor4\<rparr>)
            else
              let logicalActorX = clampedFrameX - offsetX;
                  visualActorX = logicalActorX + translationX;
                  actorWidth = rect_width bufferRect;
                  actorHeight = rect_height bufferRect;
                  visibleLeft = Math_max visualActorX viewportLeft;
                  visibleRight = Math_min (visualActorX + actorWidth) viewportRight;
                  clipX0 = visibleLeft - visualActorX;
                  clipWidth0 = visibleRight - visibleLeft;
                  clipX = Math_floor (Math_max 0 clipX0);
                  clipWidth = Math_floor (Math_min clipWidth0 (actorWidth - clipX));
                  actor3 =
                    (if clipWidth \<le> 0 then set_clip 0 0 0 0 actor2
                     else if clipWidth \<ge> actorWidth \<and> clipX = 0 then remove_clip actor2
                     else set_clip clipX 0 clipWidth actorHeight actor2);
                  clipped =
                    (if clipWidth \<le> 0 then clippedWindows m
                     else if clipWidth \<ge> actorWidth \<and> clipX = 0 then clippedWindows m
                     else insert windowId (clippedWindows m));
                  expectedBaseX = rect_x bufferRect;
                  expectedBaseY = rect_y bufferRect;
                  currentBaseX = actor_x actor3;
                  currentBaseY = actor_y actor3;
                  actor4 =
                    (if Math_abs (currentBaseX - expectedBaseX) > 1
                        \<or> Math_abs (currentBaseY - expectedBaseY) > 1
                     then set_position expectedBaseX expectedBaseY (remove_all_transitions actor3)
                     else actor3);
                  positionCorrectionX =
                    (case mosaicPositionCorrectionX metaWindow of None \<Rightarrow> 0 | Some v \<Rightarrow> v);
                  positionCorrectionY =
                    (case mosaicPositionCorrectionY metaWindow of None \<Rightarrow> 0 | Some v \<Rightarrow> v);
                  finalTranslationX = translationX + positionCorrectionX;
                  finalTranslationY = positionCorrectionY;
                  actor5 = queue_relayout (set_translation finalTranslationX finalTranslationY 0 actor4)
              in (\<lparr>pos_x = clampedFrameX, pos_y = rect_y targetPos\<rparr>,
                  m\<lparr>clippedWindows := clipped\<rparr>,
                  metaWindow\<lparr>compositor_private := Some actor5\<rparr>))"

section \<open>Positioning pass\<close>

record WindowDescriptor =
  desc_id :: nat
  targetX :: real
  targetY :: real
  desc_width :: real
  desc_height :: real

record TileLevel =
  level_windows :: "WindowDescriptor list option"

record TileInfo =
  levels :: "TileLevel list option"

definition targetPositions :: "TileInfo option \<Rightarrow> (nat \<rightharpoonup> Rect)" where
  "targetPositions tileInfo =
     (case tileInfo of
        None \<Rightarrow> Map.empty
      | Some ti \<Rightarrow>
          (case levels ti of
             None \<Rightarrow> Map.empty
           | Some ls \<Rightarrow>
               foldl (\<lambda>tp level.
                   foldl (\<lambda>tp' windowDesc.
                       tp'(desc_id windowDesc \<mapsto>
                         \<lparr> rect_x = targetX windowDesc, rect_y = targetY windowDesc,
                           rect_width = desc_width windowDesc,
                           rect_height = desc_height windowDesc \<rparr>))
                     tp (case level_windows level of None \<Rightarrow> [] | Some ds \<Rightarrow> ds))
                 Map.empty ls))"

text \<open>
  The window system's answer to \<open>move_resize_frame\<close>: from the window as it is and the
  requested geometry, the frame and buffer rectangles the window has afterwards. It is
  free to ignore or constrain the request, so it is an argument of the model.
\<close>

type_synonym WindowSystem = "MetaWindow \<Rightarrow> bool \<Rightarrow> real \<Rightarrow> real \<Rightarrow> real \<Rightarrow> real \<Rightarrow> Rect \<times> Rect"

definition move_resize_frame ::
  "WindowSystem \<Rightarrow> MetaWindow \<Rightarrow> bool \<Rightarrow> real \<Rightarrow> real \<Rightarrow> real \<Rightarrow> real \<Rightarrow> MetaWindow" where
  "move_resize_frame wsys w user_op fx fy fw fh =
     (case wsys w user_op fx fy fw fh of
        (frame, buffer) \<Rightarrow> w\<lparr>frame_rect := frame, buffer_rect := buffer\<rparr>)"

text \<open>
  The body of the loop of \<open>updateWindowPositions\<close> for one window that has a target
  position, with \<open>controlPositioning\<close> true. \<open>next_id\<close> supplies the ids that
  \<open>connect\<close> and \<open>GLib.timeout_add\<close> return.
\<close>

definition position_window ::
  "WindowSystem \<Rightarrow> ExtendedCanvasManager \<Rightarrow> Rect \<Rightarrow> Viewport \<Rightarrow> nat \<Rightarrow> MetaWindow
     \<Rightarrow> MetaWindow \<times> nat" where
  "position_window wsys m targetPos viewport next_id metaWindow =
     (let targetFrameLeft = Math_floor (rect_x targetPos + scrollOffset m);
          viewportLeft = Math_floor (vp_x viewport);
          adjustedX = (if targetFrameLeft < viewportLeft then viewportLeft else targetFrameLeft);
          w1 = metaWindow\<lparr>compositor_private :=
                 map_option remove_all_transitions (compositor_private metaWindow)\<rparr>;
          w2 = move_resize_frame wsys w1 False adjustedX (rect_y targetPos)
                 (rect_width targetPos) (rect_height targetPos);
          frameAfter = frame_rect w2;
          positionDeltaX = adjustedX - rect_x frameAfter;
          positionDeltaY = Math_floor (rect_y targetPos) - rect_y frameAfter;
          w3 =
            (if Math_abs positionDeltaX > 2 \<or> Math_abs positionDeltaY > 2
             then w2\<lparr>mosaicPositionCorrectionX := Some positionDeltaX,
                     mosaicPositionCorrectionY := Some positionDeltaY\<rparr>
             else w2\<lparr>mosaicPositionCorrectionX := Some 0,
                     mosaicPositionCorrectionY := Some 0\<rparr>);
          w4 = w3\<lparr>mosaicClipSignalId := None, mosaicClipTimeoutId := None,
                  pending_clip := None\<rparr>;
          w5 = w4\<lparr>mosaicClipSignalId := Some next_id,
                  mosaicClipTimeoutId := Some (next_id + 1),
                  pending_clip := Some (targetPos, viewport)\<rparr>
      in (w5, next_id + 2))"

text \<open>The armed callback, run by the signal or by the timeout.\<close>

definition applyClipOnce ::
  "ExtendedCanvasManager \<Rightarrow> MetaWindow \<Rightarrow> ExtendedCanvasManager \<times> MetaWindow" where
  "applyClipOnce m clipWindow =
     (case pending_clip clipWindow of
        None \<Rightarrow> (m, clipWindow)
      | Some (clipTarget, clipViewport) \<Rightarrow>
          let w1 = clipWindow\<lparr>mosaicClipSignalId := None, mosaicClipTimeoutId := None,
                     pending_clip := None\<rparr>
          in if compositor_private w1 \<noteq> None
             then (case applyViewportClip m w1 clipTarget clipViewport of
                     (_, m', w') \<Rightarrow> (m', w'))
             else (m, w1))"

text \<open>The body of the loop for one window when \<open>controlPositioning\<close> is false.\<close>

definition unclip_window ::
  "ExtendedCanvasManager \<Rightarrow> MetaWindow \<Rightarrow> ExtendedCanvasManager \<times> MetaWindow" where
  "unclip_window m metaWindow =
     (m\<lparr>clippedWindows := clippedWindows m - {win_id metaWindow}\<rparr>,
      metaWindow\<lparr>compositor_private := map_option remove_clip (compositor_private metaWindow)\<rparr>)"

text \<open>
  The loop over \<open>windows\<close>. Each element of the array is a distinct window object; the
  result lists the same windows, in order, as the pass leaves them.
\<close>

fun position_loop ::
  "WindowSystem \<Rightarrow> (nat \<rightharpoonup> Rect) \<Rightarrow> Viewport \<Rightarrow> bool \<Rightarrow> ExtendedCanvasManager \<Rightarrow> nat
     \<Rightarrow> MetaWindow list \<Rightarrow> ExtendedCanvasManager \<times> nat \<times> MetaWindow list" where
  "position_loop wsys tp viewport controlPositioning m next_id [] = (m, next_id, [])"
| "position_loop wsys tp viewport controlPositioning m next_id (metaWindow # rest) =
     (case tp (win_id metaWindow) of
        None \<Rightarrow>
          (case position_loop wsys tp viewport controlPositioning m next_id rest of
             (m', n', rest') \<Rightarrow> (m', n', metaWindow # rest'))
      | Some targetPos \<Rightarrow>
          if controlPositioning then
            (case position_window wsys m targetPos viewport next_id metaWindow of
               (w', n1) \<Rightarrow>
                 (case position_loop wsys tp viewport controlPositioning m n1 rest of
                    (m', n', rest') \<Rightarrow> (m', n', w' # rest')))
          else
            (case unclip_window m metaWindow of
               (m1, w') \<Rightarrow>
                 (case position_loop wsys tp viewport controlPositioning m1 next_id rest of
                    (m', n', rest') \<Rightarrow> (m', n', w' # rest'))))"

definition updateWindowPositions ::
  "WindowSystem \<Rightarrow> ExtendedCanvasManager \<Rightarrow> nat \<Rightarrow> MetaWindow list option \<Rightarrow> Workspace \<Rightarrow> nat
     \<Rightarrow> TileInfo option \<Rightarrow> Rect option \<Rightarrow> bool
     \<Rightarrow> ExtendedCanvasManager \<times> nat \<times> MetaWindow list" where
  "updateWindowPositions wsys m next_id windows workspace monitorIndex tileInfo workArea
       controlPositioning =
     (case windows of
        None \<Rightarrow> (m, next_id, [])
      | Some ws \<Rightarrow>
          if length ws = 0 then (m, next_id, [])
          else
            let tp = targetPositions tileInfo;
                actualWorkArea =
                  (case workArea of
                     Some wa \<Rightarrow> wa
                   | None \<Rightarrow> work_area_for_monitor workspace monitorIndex);
                viewport = \<lparr>vp_x = rect_x actualWorkArea, vp_width = rect_width actualWorkArea\<rparr>
            in position_loop wsys tp viewport controlPositioning m next_id ws)"

section \<open>Animated scrolling\<close>

text \<open>
  \<open>_applyViewport\<close> copies the state's offset into the manager and asks the tiling
  manager, when one is set, to retile the state's workspace and monitor.
\<close>

definition request_tiling :: "CanvasState \<Rightarrow> ExtendedCanvasManager \<Rightarrow> ExtendedCanvasManager" where
  "request_tiling st m =
     (if has_tilingManager m
      then m\<lparr>tile_requests := tile_requests m @
              [TileForWorkspace (ws_index (state_workspace st)) (state_monitorIndex st)]\<rparr>
      else m)"

definition applyViewport :: "CanvasState \<Rightarrow> ExtendedCanvasManager \<Rightarrow> ExtendedCanvasManager" where
  "applyViewport st m = request_tiling st (m\<lparr>scrollOffset := viewportX st\<rparr>)"

text \<open>What the closure \<open>animateStep\<close> captures from the call of \<open>scrollTo\<close>.\<close>

record ScrollAnimation =
  anim_startX :: real
  anim_deltaX :: real
  anim_targetX :: real
  anim_duration :: real
  anim_startTime :: real

text \<open>
  The manager, the canvas state handed to \<open>scrollTo\<close>, and the GLib main loop: the
  timeout sources that are pending, each with its callback, and the next source id.
  GLib source ids are positive, so a stored id is always truthy.
\<close>

record ScrollWorld =
  manager :: ExtendedCanvasManager
  canvas :: CanvasState
  timeouts :: "nat \<rightharpoonup> ScrollAnimation"
  next_source_id :: nat

definition source_remove :: "nat \<Rightarrow> ScrollWorld \<Rightarrow> ScrollWorld" where
  "source_remove sid w = w\<lparr>timeouts := (timeouts w)(sid := None)\<rparr>"

definition timeout_add :: "ScrollAnimation \<Rightarrow> ScrollWorld \<Rightarrow> nat \<times> ScrollWorld" where
  "timeout_add callback w =
     (next_source_id w,
      w\<lparr>timeouts := (timeouts w)(next_source_id w \<mapsto> callback),
        next_source_id := next_source_id w + 1\<rparr>)"

text \<open>
  \<open>Math.min(elapsed / duration, 1)\<close>. With a duration of zero the quotient is plus
  infinity, minus infinity or NaN, as the elapsed time is positive, negative or zero, and
  the minimum is 1, minus infinity or NaN.
\<close>

datatype JSProgress = Progress real | ProgressNaN | ProgressMinusInfinity

definition animation_progress :: "real \<Rightarrow> real \<Rightarrow> JSProgress" where
  "animation_progress elapsed duration =
     (if duration \<noteq> 0 then Progress (Math_min (double_div elapsed duration) 1)
      else if 0 < elapsed then Progress 1
      else if elapsed < 0 then ProgressMinusInfinity
      else ProgressNaN)"

text \<open>The test \<open>progress < 1\<close>; a comparison with NaN is false.\<close>

fun progress_less_than_1 :: "JSProgress \<Rightarrow> bool" where
  "progress_less_than_1 (Progress p) = (p < 1)"
| "progress_less_than_1 ProgressNaN = False"
| "progress_less_than_1 ProgressMinusInfinity = True"

text \<open>
  One run of \<open>animateStep\<close>; \<open>now\<close> is what \<open>GLib.get_monotonic_time()\<close> returns in it,
  in microseconds. With a NaN progress the interpolated offset is NaN: \<open>_applyViewport\<close>
  is called with it, and the step then stores the target and calls \<open>_applyViewport\<close>
  again, so that no NaN is left. With a progress of minus infinity the step would store an
  infinite or NaN offset and arm the next tick: that state is not one of the model, and the
  result is \<open>None\<close>.
\<close>

definition animateStep :: "ScrollAnimation \<Rightarrow> real \<Rightarrow> ScrollWorld \<Rightarrow> ScrollWorld option" where
  "animateStep a now w =
     (let currentTime = double_div now 1000;
          elapsed = double_sub currentTime (anim_startTime a)
      in case animation_progress elapsed (anim_duration a) of
           Progress progress \<Rightarrow>
             let eased = double_sub 1 (double_mul (double_sub 1 progress) (double_sub 1 progress));
                 st1 = (canvas w)\<lparr>viewportX :=
                         double_add (anim_startX a) (double_mul (anim_deltaX a) eased)\<rparr>;
                 w1 = w\<lparr>canvas := st1, manager := applyViewport st1 (manager w)\<rparr>
             in if progress < 1 then
                  (case timeout_add a w1 of
                     (sid, w2) \<Rightarrow>
                       Some (w2\<lparr>manager := (manager w2)\<lparr>scrollAnimationId := Some sid\<rparr>\<rparr>))
                else
                  let st2 = st1\<lparr>viewportX := anim_targetX a\<rparr>;
                      m2 = applyViewport st2 (manager w1)
                  in Some (w1\<lparr>canvas := st2, manager := m2\<lparr>scrollAnimationId := None\<rparr>\<rparr>)
         | ProgressNaN \<Rightarrow>
             let m1 = request_tiling (canvas w) (manager w);
                 st2 = (canvas w)\<lparr>viewportX := anim_targetX a\<rparr>;
                 m2 = applyViewport st2 m1
             in Some (w\<lparr>canvas := st2, manager := m2\<lparr>scrollAnimationId := None\<rparr>\<rparr>)
         | ProgressMinusInfinity \<Rightarrow> None)"

text \<open>
  \<open>scrollTo\<close>. \<open>t_start\<close> is the clock reading taken for \<open>startTime\<close>, \<open>t_first\<close> the
  reading taken by the first run of \<open>animateStep\<close>, which \<open>scrollTo\<close> makes itself.
\<close>

definition scrollTo ::
  "constants \<Rightarrow> real \<Rightarrow> bool \<Rightarrow> real \<Rightarrow> real \<Rightarrow> ScrollWorld \<Rightarrow> ScrollWorld option" where
  "scrollTo c targetX0 animate t_start t_first w =
     (let w1 =
            (case scrollAnimationId (manager w) of
               Some sid \<Rightarrow> (source_remove sid w)\<lparr>manager := (manager w)\<lparr>scrollAnimationId := None\<rparr>\<rparr>
             | None \<Rightarrow> w);
          targetX = clampViewportX c targetX0 (state_workArea (canvas w1))
      in if \<not> animate then
           let st1 = (canvas w1)\<lparr>viewportX := targetX\<rparr>
           in Some (w1\<lparr>canvas := st1, manager := applyViewport st1 (manager w1)\<rparr>)
         else
           let startX = viewportX (canvas w1);
               deltaX = double_sub targetX startX;
               duration = VIEWPORT_SCROLL_DURATION_MS c;
               startTime = double_div t_start 1000;
               a = \<lparr> anim_startX = startX, anim_deltaX = deltaX, anim_targetX = targetX,
                     anim_duration = duration, anim_startTime = startTime \<rparr>
           in animateStep a t_first w1)"

text \<open>
  The main loop fires the pending timeout of the animation: the source is removed (the
  callback returns \<open>SOURCE_REMOVE\<close>) and its callback runs with the clock reading \<open>now\<close>.
\<close>

definition fire_timeout :: "nat \<Rightarrow> real \<Rightarrow> ScrollWorld \<Rightarrow> ScrollWorld option" where
  "fire_timeout sid now w =
     (case timeouts w sid of
        None \<Rightarrow> Some w
      | Some a \<Rightarrow> animateStep a now (source_remove sid w))"

text \<open>
  The ticks that follow a call of \<open>scrollTo\<close>, one for each clock reading of the list,
  for as long as the manager holds an animation handle.
\<close>

fun run_ticks :: "real list \<Rightarrow> ScrollWorld \<Rightarrow> ScrollWorld option" where
  "run_ticks [] w = Some w"
| "run_ticks (now # later) w =
     (case scrollAnimationId (manager w) of
        None \<Rightarrow> Some w
      | Some sid \<Rightarrow>
          (case fire_timeout sid now w of
             None \<Rightarrow> None
           | Some w' \<Rightarrow> run_ticks later w'))"

section \<open>Visibility tests\<close>

definition isWindowFullyVisible ::
  "ExtendedCanvasManager \<Rightarrow> MetaWindow option \<Rightarrow> bool \<times> ExtendedCanvasManager" where
  "isWindowFullyVisible m metaWindow =
     (case metaWindow of
        None \<Rightarrow> (False, m)
      | Some mw \<Rightarrow>
          let workspace = win_workspace mw;
              monitorIndex = win_monitor mw
          in case getCanvasState m monitorIndex workspace of
               (st, m') \<Rightarrow>
                 let windowFrame = frame_rect mw;
                     workArea = work_area_for_monitor workspace monitorIndex;
                     windowLeft = rect_x windowFrame;
                     windowRight = rect_x windowFrame + rect_width windowFrame;
                     viewportLeft = rect_x workArea + viewportX st;
                     viewportRight = viewportLeft + rect_width workArea
                 in (windowLeft \<ge> viewportLeft \<and> windowRight \<le> viewportRight, m'))"

definition isWindowPartiallyVisible ::
  "ExtendedCanvasManager \<Rightarrow> MetaWindow option \<Rightarrow> bool \<times> ExtendedCanvasManager" where
  "isWindowPartiallyVisible m metaWindow =
     (case metaWindow of
        None \<Rightarrow> (False, m)
      | Some mw \<Rightarrow>
          let workspace = win_workspace mw;
              monitorIndex = win_monitor mw
          in case getCanvasState m monitorIndex workspace of
               (st, m') \<Rightarrow>
                 let windowFrame = frame_rect mw;
                     workArea = work_area_for_monitor workspace monitorIndex;
                     windowLeft = rect_x windowFrame;
                     windowRight = rect_x windowFrame + rect_width windowFrame;
                     viewportLeft = rect_x workArea + viewportX st;
                     viewportRight = viewportLeft + rect_width workArea;
                     overlaps = (windowLeft < viewportRight \<and> windowRight > viewportLeft);
                     fullyInside = (windowLeft \<ge> viewportLeft \<and> windowRight \<le> viewportRight)
                 in (overlaps \<and> \<not> fullyInside, m'))"

section \<open>Auxiliary window state\<close>

text \<open>
  The module keeps one \<open>WeakMap\<close> from window objects to state objects. A state object
  is its own properties, a finite map from property names to values; a read that finds no
  own property continues in \<open>Object.prototype\<close>, which is the argument \<open>proto\<close> of the
  two reading functions. \<open>Undefined\<close> is the JavaScript value \<open>undefined\<close>. Property
  names are those of ordinary data properties.
\<close>

datatype 'v JSValue = Undefined | Value 'v

type_synonym 'v StateObject = "string \<rightharpoonup> 'v JSValue"

type_synonym ('w, 'v) WindowStates = "'w \<rightharpoonup> 'v StateObject"

definition windowStates_initial :: "('w, 'v) WindowStates" where
  "windowStates_initial = Map.empty"

definition WindowState_get ::
  "'v StateObject \<Rightarrow> ('w, 'v) WindowStates \<Rightarrow> 'w \<Rightarrow> string \<Rightarrow> 'v JSValue" where
  "WindowState_get proto windowStates window property =
     (case windowStates window of
        None \<Rightarrow> Undefined
      | Some state \<Rightarrow>
          (case state property of
             Some v \<Rightarrow> v
           | None \<Rightarrow> (case proto property of Some v \<Rightarrow> v | None \<Rightarrow> Undefined)))"

definition WindowState_set ::
  "('w, 'v) WindowStates \<Rightarrow> 'w \<Rightarrow> string \<Rightarrow> 'v JSValue \<Rightarrow> ('w, 'v) WindowStates" where
  "WindowState_set windowStates window property val =
     (case windowStates window of
        None \<Rightarrow> windowStates(window \<mapsto> Map.empty(property \<mapsto> val))
      | Some state \<Rightarrow> windowStates(window \<mapsto> state(property \<mapsto> val)))"

definition WindowState_has ::
  "'v StateObject \<Rightarrow> ('w, 'v) WindowStates \<Rightarrow> 'w \<Rightarrow> string \<Rightarrow> bool" where
  "WindowState_has proto windowStates window property =
     (case windowStates window of
        None \<Rightarrow> False
      | Some state \<Rightarrow>
          (case state property of
             Some _ \<Rightarrow> True
           | None \<Rightarrow> proto property \<noteq> None))"

definition WindowState_remove ::
  "('w, 'v) WindowStates \<Rightarrow> 'w \<Rightarrow> string \<Rightarrow> ('w, 'v) WindowStates" where
  "WindowState_remove windowStates window property =
     (case windowStates window of
        None \<Rightarrow> windowStates
      | Some state \<Rightarrow> windowStates(window \<mapsto> state(property := None)))"

definition WindowState_getState ::
  "('w, 'v) WindowStates \<Rightarrow> 'w \<Rightarrow> 'v StateObject option" where
  "WindowState_getState windowStates window = windowStates window"

definition WindowState_clear :: "('w, 'v) WindowStates \<Rightarrow> 'w \<Rightarrow> ('w, 'v) WindowStates" where
  "WindowState_clear windowStates window = windowStates(window := None)"

text \<open>The writing operations of the module, to speak about sequences of calls.\<close>

datatype ('w, 'v) StoreCall =
    CallSet 'w string "'v JSValue"
  | CallRemove 'w string
  | CallClear 'w

fun call_window :: "('w, 'v) StoreCall \<Rightarrow> 'w" where
  "call_window (CallSet w p v) = w"
| "call_window (CallRemove w p) = w"
| "call_window (CallClear w) = w"

fun is_set_on :: "'w \<Rightarrow> ('w, 'v) StoreCall \<Rightarrow> bool" where
  "is_set_on w (CallSet w' p v) = (w' = w)"
| "is_set_on w (CallRemove w' p) = False"
| "is_set_on w (CallClear w') = False"

fun do_call :: "('w, 'v) WindowStates \<Rightarrow> ('w, 'v) StoreCall \<Rightarrow> ('w, 'v) WindowStates" where
  "do_call s (CallSet w p v) = WindowState_set s w p v"
| "do_call s (CallRemove w p) = WindowState_remove s w p"
| "do_call s (CallClear w) = WindowState_clear s w"

definition do_calls :: "('w, 'v) StoreCall list \<Rightarrow> ('w, 'v) WindowStates \<Rightarrow> ('w, 'v) WindowStates" where
  "do_calls calls s = foldl do_call s calls"

section \<open>Example inputs\<close>

text \<open>
  Concrete inputs at which the theorems below are instantiated: a 200 percent canvas that
  pans half a work area to either side, a 1280 pixel wide work area, and one window whose
  actor carries a stale clip and translation.
\<close>

definition c0 :: constants where
  "c0 = \<lparr> CANVAS_EXPANSION_RATIO = 2, CANVAS_PAN_LEFT = 1 / 2, CANVAS_PAN_RIGHT = 1 / 2,
      VIEWPORT_SCROLL_DURATION_MS = 250 \<rparr>"

definition wa0 :: Rect where
  "wa0 = \<lparr> rect_x = 0, rect_y = 0, rect_width = 1280, rect_height = 720 \<rparr>"

definition actor_ex :: Actor where
  "actor_ex = \<lparr> opacity = 128, actor_x = 10, actor_y = 20, translation_x = - 300,
      translation_y = 0, translation_z = 0, clip = Some (300, 0, 100, 300),
      transitions = True, relayout_queued = False \<rparr>"

definition workspace_ex :: Workspace where
  "workspace_ex = \<lparr> ws_index = 0, work_area_for_monitor = (\<lambda>_. wa0) \<rparr>"

definition window_ex :: MetaWindow where
  "window_ex = \<lparr> win_id = 7,
      frame_rect = \<lparr> rect_x = 100, rect_y = 50, rect_width = 400, rect_height = 300 \<rparr>,
      buffer_rect = \<lparr> rect_x = 90, rect_y = 40, rect_width = 420, rect_height = 320 \<rparr>,
      compositor_private = Some actor_ex, win_monitor = 0, win_workspace = workspace_ex,
      skip_taskbar = False, window_type = NORMAL,
      mosaicPositionCorrectionX = None, mosaicPositionCorrectionY = None,
      mosaicClipSignalId = None, mosaicClipTimeoutId = None, pending_clip = None \<rparr>"

definition manager_ex :: ExtendedCanvasManager where
  "manager_ex = \<lparr> canvasStates = Map.empty, scrollAnimationId = None, scrollOffset = 0,
      scrollStep = 20, clippedWindows = {7}, has_tileManager = True,
      has_tilingManager = True, tile_requests = [] \<rparr>"

definition viewport_ex :: Viewport where
  "viewport_ex = \<lparr> vp_x = 0, vp_width = 1280 \<rparr>"

definition target_inside :: Rect where
  "target_inside = \<lparr> rect_x = 201 / 2, rect_y = 50, rect_width = 400, rect_height = 300 \<rparr>"

definition target_left :: Rect where
  "target_left = \<lparr> rect_x = - 300, rect_y = 50, rect_width = 400, rect_height = 300 \<rparr>"

definition target_right :: Rect where
  "target_right = \<lparr> rect_x = 1000, rect_y = 50, rect_width = 400, rect_height = 300 \<rparr>"

text \<open>
  A window system that ignores every move request, a tiling that asks for the example
  window at (300, 80), and one that asks for it at its present x and two and a half pixels
  below its present y.
\<close>

definition wsys_ignore :: WindowSystem where
  "wsys_ignore w user_op fx fy fw fh = (frame_rect w, buffer_rect w)"

definition tile_ex :: TileInfo where
  "tile_ex = \<lparr> levels = Some [\<lparr> level_windows = Some
      [\<lparr> desc_id = 7, targetX = 300, targetY = 80, desc_width = 400, desc_height = 300 \<rparr>] \<rparr>] \<rparr>"

definition tile_half_pixel :: TileInfo where
  "tile_half_pixel = \<lparr> levels = Some [\<lparr> level_windows = Some
      [\<lparr> desc_id = 7, targetX = 100, targetY = 105 / 2, desc_width = 400, desc_height = 300 \<rparr>] \<rparr>] \<rparr>"

text \<open>
  The doubles nearest to 0.1, 15.7 and 0.3, and a work area whose width is the double
  48.099999999999994.
\<close>

definition width_tenth :: real where
  "width_tenth = 3602879701896397 / 36028797018963968"

definition width_15_7 :: real where
  "width_15_7 = 4419157134357299 / 281474976710656"

definition width_three_tenths :: real where
  "width_three_tenths = 5404319552844595 / 18014398509481984"

definition wa_48 :: Rect where
  "wa_48 = \<lparr> rect_x = 0, rect_y = 0, rect_width = 1692368297472819 / 35184372088832,
      rect_height = 720 \<rparr>"

text \<open>A work area at the double nearest to 5.1 whose width is the double nearest to 1.7.\<close>

definition frac_x :: real where
  "frac_x = 2871044762448691 / 562949953421312"

definition frac_width :: real where
  "frac_width = 7656119366529843 / 4503599627370496"

definition wa_frac :: Rect where
  "wa_frac = \<lparr> rect_x = frac_x, rect_y = 0, rect_width = frac_width, rect_height = 720 \<rparr>"

text \<open>
  A canvas state whose offset is the double nearest to 387.61856, a main loop with no
  pending source, and the example constants with a scroll duration of zero.
\<close>

definition offset_387 :: real where
  "offset_387 = 3409528910894313 / 8796093022208"

definition state_ex :: CanvasState where
  "state_ex = (new_CanvasState wa0 0 workspace_ex)\<lparr>viewportX := offset_387\<rparr>"

definition world_ex :: ScrollWorld where
  "world_ex = \<lparr> manager = manager_ex, canvas = state_ex, timeouts = Map.empty,
      next_source_id = 1 \<rparr>"

definition c_instant :: constants where
  "c_instant = c0\<lparr>VIEWPORT_SCROLL_DURATION_MS := 0\<rparr>"

text \<open>
  An \<open>Object.prototype\<close> with one inherited property, and the calls that give window 1 a
  property and delete it again.
\<close>

definition proto_ex :: "int StateObject" where
  "proto_ex = Map.empty(''toString'' \<mapsto> Value 0)"

definition emptied_bag_calls :: "(nat, int) StoreCall list" where
  "emptied_bag_calls = [CallSet 1 ''a'' (Value 3), CallRemove 1 ''a'']"

section \<open>Rounding to a double\<close>

lemma nat_53_plus: "nat (53 + int j) = 53 + j"
  by arith

lemma round_half_even_of_int: "round_half_even (of_int n) = n"
  by (simp add: round_half_even_def)

lemma round_half_even_floor: "\<lfloor>r\<rfloor> \<le> round_half_even r \<and> round_half_even r \<le> \<lfloor>r\<rfloor> + 1"
  by (simp add: round_half_even_def Let_def)

lemma round_half_even_mono:
  assumes "r \<le> s"
  shows "round_half_even r \<le> round_half_even s"
proof (cases "\<lfloor>r\<rfloor> = \<lfloor>s\<rfloor>")
  case True
  with assms show ?thesis
    by (auto simp add: round_half_even_def Let_def)
next
  case False
  with assms have "\<lfloor>r\<rfloor> + 1 \<le> \<lfloor>s\<rfloor>"
    using floor_mono [of r s] by simp
  with round_half_even_floor [of r] round_half_even_floor [of s] show ?thesis
    by simp
qed

lemma round_half_even_minus: "round_half_even (- r) = - round_half_even r"
proof (cases "r \<in> \<int>")
  case True
  then obtain n where "r = of_int n" by (auto elim: Ints_cases)
  then show ?thesis
    using round_half_even_of_int [of "- n"] round_half_even_of_int [of n] by simp
next
  case False
  then have "of_int \<lfloor>r\<rfloor> \<noteq> r"
    by (metis Ints_of_int)
  then have fl: "\<lfloor>- r\<rfloor> = - \<lfloor>r\<rfloor> - 1"
    by (simp add: floor_minus ceiling_altdef)
  show ?thesis
    unfolding round_half_even_def Let_def fl
    by (auto simp add: algebra_simps)
qed

lemma round_half_even_le_int:
  assumes "r \<le> of_int n"
  shows "round_half_even r \<le> n"
  using round_half_even_mono [OF assms] by (simp add: round_half_even_of_int)

lemma round_half_even_ge_int:
  assumes "of_int n \<le> r"
  shows "n \<le> round_half_even r"
  using round_half_even_mono [OF assms] by (simp add: round_half_even_of_int)

lemma double_exponent_upper: "\<bar>y\<bar> < 2 ^ (53 + double_exponent y)"
proof -
  have "bitlen \<lfloor>\<bar>y\<bar>\<rfloor> \<le> int (53 + double_exponent y)"
    by (simp add: double_exponent_def)
  then have "\<lfloor>\<bar>y\<bar>\<rfloor> < 2 ^ (53 + double_exponent y)"
    unfolding bitlen_le_iff_power by (simp add: nat_53_plus)
  then show ?thesis
    by (simp add: floor_less_iff)
qed

lemma double_exponent_lower:
  assumes "0 < double_exponent y"
  shows "2 ^ (52 + double_exponent y) \<le> \<bar>y\<bar>"
proof -
  from assms have "int (53 + double_exponent y) \<le> bitlen \<lfloor>\<bar>y\<bar>\<rfloor>"
    by (simp add: double_exponent_def)
  then have "2 ^ (52 + double_exponent y) \<le> \<lfloor>\<bar>y\<bar>\<rfloor>"
    unfolding bitlen_ge_iff_power by (simp add: nat_add_distrib)
  then have "of_int (2 ^ (52 + double_exponent y)) \<le> \<bar>y\<bar>"
    unfolding le_floor_iff .
  then show ?thesis by simp
qed

lemma double_exponent_mono:
  assumes "\<bar>y\<bar> \<le> \<bar>z\<bar>"
  shows "double_exponent y \<le> double_exponent z"
proof -
  from assms have "nat \<lfloor>\<bar>y\<bar>\<rfloor> \<le> nat \<lfloor>\<bar>z\<bar>\<rfloor>"
    by (simp add: floor_mono nat_mono)
  then have "bitlen \<lfloor>\<bar>y\<bar>\<rfloor> \<le> bitlen \<lfloor>\<bar>z\<bar>\<rfloor>"
    unfolding bitlen_def by (simp add: floorlog_mono)
  then show ?thesis
    by (simp add: double_exponent_def nat_mono)
qed

lemma double_exponent_eqI:
  assumes "2 ^ (52 + j) \<le> \<bar>y\<bar>" and "\<bar>y\<bar> < 2 ^ (53 + j)"
  shows "double_exponent y = j"
proof -
  from assms(2) have "\<lfloor>\<bar>y\<bar>\<rfloor> < 2 ^ (53 + j)"
    by (simp add: floor_less_iff)
  then have up: "bitlen \<lfloor>\<bar>y\<bar>\<rfloor> \<le> int (53 + j)"
    unfolding bitlen_le_iff_power by (simp add: nat_53_plus)
  from assms(1) have "of_int (2 ^ (52 + j)) \<le> \<bar>y\<bar>" by simp
  then have "2 ^ (52 + j) \<le> \<lfloor>\<bar>y\<bar>\<rfloor>"
    unfolding le_floor_iff .
  then have lo: "int (53 + j) \<le> bitlen \<lfloor>\<bar>y\<bar>\<rfloor>"
    unfolding bitlen_ge_iff_power by (simp add: nat_add_distrib)
  from up lo show ?thesis
    by (simp add: double_exponent_def)
qed

lemma double_exponent_minus: "double_exponent (- y) = double_exponent y"
  by (simp add: double_exponent_def)

lemma round_53_minus: "round_53 (- y) = - round_53 y"
  by (simp add: round_53_def double_exponent_minus round_half_even_minus)

lemma round_53_nonneg:
  assumes "0 \<le> y"
  shows "0 \<le> round_53 y"
proof -
  from assms have "of_int 0 \<le> y / 2 ^ double_exponent y" by simp
  then have "0 \<le> round_half_even (y / 2 ^ double_exponent y)"
    by (rule round_half_even_ge_int)
  then show ?thesis
    by (simp add: round_53_def)
qed

lemma round_53_upper:
  assumes "0 \<le> y"
  shows "round_53 y \<le> 2 ^ (53 + double_exponent y)"
proof -
  let ?E = "double_exponent y"
  from double_exponent_upper [of y] assms have "y < 2 ^ 53 * 2 ^ ?E"
    by (simp add: power_add)
  then have "y / 2 ^ ?E \<le> of_int (2 ^ 53)"
    by (simp add: pos_divide_le_eq)
  then have "round_half_even (y / 2 ^ ?E) \<le> 2 ^ 53"
    by (rule round_half_even_le_int)
  then have "real_of_int (round_half_even (y / 2 ^ ?E)) \<le> 2 ^ 53"
    by (metis of_int_le_iff of_int_numeral of_int_power)
  then have "real_of_int (round_half_even (y / 2 ^ ?E)) * 2 ^ ?E \<le> 2 ^ 53 * 2 ^ ?E"
    by (rule mult_right_mono) simp
  then show ?thesis
    by (simp add: round_53_def power_add)
qed

lemma round_53_lower:
  assumes "0 \<le> y" and "0 < double_exponent y"
  shows "2 ^ (52 + double_exponent y) \<le> round_53 y"
proof -
  let ?E = "double_exponent y"
  from double_exponent_lower [OF assms(2)] assms(1) have "2 ^ 52 * 2 ^ ?E \<le> y"
    by (simp add: power_add)
  then have "of_int (2 ^ 52) \<le> y / 2 ^ ?E"
    by (simp add: pos_le_divide_eq)
  then have "2 ^ 52 \<le> round_half_even (y / 2 ^ ?E)"
    by (rule round_half_even_ge_int)
  then have "2 ^ 52 \<le> real_of_int (round_half_even (y / 2 ^ ?E))"
    by (metis of_int_le_iff of_int_numeral of_int_power)
  then have "2 ^ 52 * 2 ^ ?E \<le> real_of_int (round_half_even (y / 2 ^ ?E)) * 2 ^ ?E"
    by (rule mult_right_mono) simp
  then show ?thesis
    by (simp add: round_53_def power_add)
qed

lemma round_53_mono_nonneg:
  assumes "0 \<le> y" and "y \<le> z"
  shows "round_53 y \<le> round_53 z"
proof -
  from assms have z: "0 \<le> z" by simp
  from assms have le: "double_exponent y \<le> double_exponent z"
    by (intro double_exponent_mono) simp
  show ?thesis
  proof (cases "double_exponent y = double_exponent z")
    case True
    from assms(2) have "y / 2 ^ double_exponent z \<le> z / 2 ^ double_exponent z"
      by (simp add: divide_right_mono)
    then have "round_half_even (y / 2 ^ double_exponent z)
        \<le> round_half_even (z / 2 ^ double_exponent z)"
      by (rule round_half_even_mono)
    then have "real_of_int (round_half_even (y / 2 ^ double_exponent z)) * 2 ^ double_exponent z
        \<le> real_of_int (round_half_even (z / 2 ^ double_exponent z)) * 2 ^ double_exponent z"
      by (intro mult_right_mono) simp_all
    with True show ?thesis
      by (simp add: round_53_def)
  next
    case False
    with le have lt: "double_exponent y < double_exponent z" by simp
    then have pos: "0 < double_exponent z" by simp
    have "round_53 y \<le> 2 ^ (53 + double_exponent y)"
      using assms(1) by (rule round_53_upper)
    also from lt have "(2::real) ^ (53 + double_exponent y) \<le> 2 ^ (52 + double_exponent z)"
      by (intro power_increasing) simp_all
    also have "2 ^ (52 + double_exponent z) \<le> round_53 z"
      using z pos by (rule round_53_lower)
    finally show ?thesis .
  qed
qed

lemma round_53_mono:
  assumes "y \<le> z"
  shows "round_53 y \<le> round_53 z"
proof (cases "0 \<le> y")
  case True
  then show ?thesis using assms by (rule round_53_mono_nonneg)
next
  case False
  then have y: "0 \<le> - y" by simp
  show ?thesis
  proof (cases "0 \<le> z")
    case True
    from round_53_nonneg [OF y] have "round_53 y \<le> 0"
      by (simp add: round_53_minus)
    also from True have "0 \<le> round_53 z" by (rule round_53_nonneg)
    finally show ?thesis .
  next
    case False
    then have "0 \<le> - z" by simp
    moreover from assms have "- z \<le> - y" by simp
    ultimately have "round_53 (- z) \<le> round_53 (- y)"
      by (rule round_53_mono_nonneg)
    then show ?thesis
      by (simp add: round_53_minus)
  qed
qed

lemma round_53_exact:
  assumes "\<bar>m\<bar> < 2 ^ 53"
  shows "round_53 (of_int m * 2 ^ j) = of_int m * 2 ^ j"
proof -
  let ?y = "real_of_int m * 2 ^ j"
  let ?E = "double_exponent ?y"
  from assms have "real_of_int \<bar>m\<bar> < 2 ^ 53"
    by (metis of_int_less_iff of_int_numeral of_int_power)
  then have "real_of_int \<bar>m\<bar> * 2 ^ j < 2 ^ 53 * 2 ^ j"
    by (intro mult_strict_right_mono) simp_all
  then have up: "\<bar>?y\<bar> < 2 ^ (53 + j)"
    by (simp add: abs_mult power_add)
  have Ej: "?E \<le> j"
  proof (rule ccontr)
    assume "\<not> ?E \<le> j"
    then have lt: "j < ?E" by simp
    then have "0 < ?E" by simp
    from double_exponent_lower [OF this] have "2 ^ (52 + ?E) \<le> \<bar>?y\<bar>" .
    moreover from lt have "(2::real) ^ (53 + j) \<le> 2 ^ (52 + ?E)"
      by (intro power_increasing) simp_all
    ultimately show False using up by simp
  qed
  then have split: "(2::real) ^ j = 2 ^ (j - ?E) * 2 ^ ?E"
    by (simp flip: power_add)
  have "?y / 2 ^ ?E = real_of_int m * 2 ^ (j - ?E) * 2 ^ ?E / 2 ^ ?E"
    by (subst split) simp
  also have "\<dots> = of_int (m * 2 ^ (j - ?E))"
    by simp
  finally have "round_half_even (?y / 2 ^ ?E) = m * 2 ^ (j - ?E)"
    by (simp only: round_half_even_of_int)
  then have "round_53 ?y = of_int (m * 2 ^ (j - ?E)) * 2 ^ ?E"
    by (simp only: round_53_def)
  also have "\<dots> = real_of_int m * (2 ^ (j - ?E) * 2 ^ ?E)"
    by simp
  also have "\<dots> = ?y"
    by (simp only: split [symmetric])
  finally show ?thesis .
qed

lemma round_double_mono:
  assumes "a \<le> b"
  shows "round_double a \<le> round_double b"
proof -
  from assms have "a * 2 ^ subnormal_bits \<le> b * 2 ^ subnormal_bits" by simp
  then have "round_53 (a * 2 ^ subnormal_bits) \<le> round_53 (b * 2 ^ subnormal_bits)"
    by (rule round_53_mono)
  then show ?thesis
    by (simp add: round_double_def divide_right_mono)
qed

lemma scale_split:
  assumes "k \<le> subnormal_bits"
  shows "(2::real) ^ subnormal_bits = 2 ^ k * 2 ^ (subnormal_bits - k)"
  using assms by (simp flip: power_add)

lemma round_double_exact:
  assumes "\<bar>m\<bar> < 2 ^ 53" and "k \<le> subnormal_bits"
  shows "round_double (of_int m / 2 ^ k) = of_int m / 2 ^ k"
proof -
  let ?j = "subnormal_bits - k"
  have "real_of_int m / 2 ^ k * 2 ^ subnormal_bits = of_int m * 2 ^ ?j"
    by (subst scale_split [OF assms(2)]) simp
  then have "round_53 (real_of_int m / 2 ^ k * 2 ^ subnormal_bits) = of_int m * 2 ^ ?j"
    using round_53_exact [OF assms(1), of ?j] by simp
  then have "round_double (of_int m / 2 ^ k) = of_int m * 2 ^ ?j / 2 ^ subnormal_bits"
    by (simp only: round_double_def)
  also have "\<dots> = of_int m / 2 ^ k"
    by (subst scale_split [OF assms(2)]) simp
  finally show ?thesis .
qed

lemma round_double_of_int:
  assumes "\<bar>m\<bar> < 2 ^ 53"
  shows "round_double (of_int m) = of_int m"
  using round_double_exact [OF assms, of 0] by simp

lemma round_double_eval:
  assumes "2 ^ 52 \<le> \<bar>v\<bar> * 2 ^ k" and "\<bar>v\<bar> * 2 ^ k < 2 ^ 53" and "k \<le> subnormal_bits"
    and "round_half_even (v * 2 ^ k) = m" and "r = of_int m / 2 ^ k"
  shows "round_double v = r"
proof -
  let ?j = "subnormal_bits - k"
  let ?y = "v * 2 ^ subnormal_bits"
  have y: "?y = (v * 2 ^ k) * 2 ^ ?j"
    by (subst scale_split [OF assms(3)]) simp
  have "2 ^ 52 * 2 ^ ?j \<le> \<bar>v\<bar> * 2 ^ k * 2 ^ ?j"
    using assms(1) by (intro mult_right_mono) simp_all
  then have lo: "2 ^ (52 + ?j) \<le> \<bar>?y\<bar>"
    unfolding y by (simp add: abs_mult power_add)
  have "\<bar>v\<bar> * 2 ^ k * 2 ^ ?j < 2 ^ 53 * 2 ^ ?j"
    using assms(2) by (intro mult_strict_right_mono) simp_all
  then have up: "\<bar>?y\<bar> < 2 ^ (53 + ?j)"
    unfolding y by (simp add: abs_mult power_add)
  have E: "double_exponent ?y = ?j"
    using lo up by (rule double_exponent_eqI)
  have "?y / 2 ^ ?j = v * 2 ^ k"
    unfolding y by simp
  then have "round_53 ?y = of_int m * 2 ^ ?j"
    by (simp only: round_53_def E assms(4))
  then have "round_double v = of_int m * 2 ^ ?j / 2 ^ subnormal_bits"
    by (simp only: round_double_def)
  also have "\<dots> = of_int m / 2 ^ k"
    by (subst scale_split [OF assms(3)]) simp
  finally show ?thesis
    by (simp only: assms(5))
qed

lemma round_double_0: "round_double 0 = 0"
  using round_double_of_int [of 0] by simp

lemma round_double_nat:
  assumes "n < 2 ^ 53"
  shows "round_double (real n) = real n"
proof -
  from assms have "\<bar>int n\<bar> < 2 ^ 53"
    by (metis abs_of_nat of_nat_less_iff of_nat_numeral of_nat_power)
  from round_double_of_int [OF this] show ?thesis by simp
qed

lemma round_double_numeral:
  assumes "(numeral n :: int) < 2 ^ 53"
  shows "round_double (numeral n) = numeral n"
proof -
  from assms have "\<bar>numeral n :: int\<bar> < 2 ^ 53" by simp
  from round_double_of_int [OF this] show ?thesis by simp
qed

lemma round_double_1: "round_double 1 = 1"
  using round_double_of_int [of 1] by simp

lemma round_double_nonneg:
  assumes "0 \<le> v"
  shows "0 \<le> round_double v"
  using round_double_mono [OF assms] by (simp add: round_double_0)


section \<open>Phase classification\<close>

lemma foldl_widths_mono:
  "list_all2 (\<lambda>a b. window_width a \<le> window_width b) ws ws' \<Longrightarrow> a \<le> a' \<Longrightarrow>
   foldl (\<lambda>sum w. double_add sum (window_width w)) a ws
     \<le> foldl (\<lambda>sum w. double_add sum (window_width w)) a' ws'"
proof (induction arbitrary: a a' rule: list_all2_induct)
  case Nil
  then show ?case by simp
next
  case (Cons w ws w' ws')
  from Cons.hyps(1) Cons.prems have "double_add a (window_width w) \<le> double_add a' (window_width w')"
    unfolding double_add_def by (intro round_double_mono) simp
  from Cons.IH [OF this] show ?case by simp
qed

lemma foldl_widths_numeric:
  "foldl (\<lambda>sum w. double_add sum (window_width w)) a (map NumericWidth widths)
     = foldl double_add a widths"
  by (induction widths arbitrary: a) simp_all

lemma foldl_double_add_nat:
  "a + sum_list ns < 2 ^ 53 \<Longrightarrow>
   foldl double_add (real a) (map real ns) = real (a + sum_list ns)"
proof (induction ns arbitrary: a)
  case Nil
  then show ?case by simp
next
  case (Cons n ns)
  from Cons.prems have small: "a + n < 2 ^ 53" by simp
  have "double_add (real a) (real n) = real (a + n)"
    using round_double_nat [OF small] by (simp add: double_add_def)
  moreover from Cons.prems have "(a + n) + sum_list ns < 2 ^ 53"
    by (simp add: add.assoc)
  ultimately show ?case
    using Cons.IH [of "a + n"] by (simp add: add.assoc)
qed

lemma phase_of_total_mono:
  fixes t t' W C :: real
  assumes "t \<le> t'"
  shows "phase_number (if t \<le> W then PHASE_1 else if t \<le> C then PHASE_2 else PHASE_3)
       \<le> phase_number (if t' \<le> W then PHASE_1 else if t' \<le> C then PHASE_2 else PHASE_3)"
  using assms by auto

lemma calculatePhase_nonempty:
  "ws \<noteq> [] \<Longrightarrow>
   calculatePhase c (Some ws) wa =
     (let total = double_add (foldl (\<lambda>sum w. double_add sum (window_width w)) 0 ws)
                    (double_mul (double_add (real (length ws)) 1) WINDOW_SPACING)
      in if total \<le> rect_width wa then PHASE_1
         else if total \<le> double_mul (rect_width wa) (CANVAS_EXPANSION_RATIO c) then PHASE_2
         else PHASE_3)"
  by (simp add: calculatePhase_def Let_def)

lemma calculatePhase_pixels:
  assumes "ns \<noteq> []" and "sum_list ns + (length ns + 1) * 8 < 2 ^ 53"
  shows "calculatePhase c (Some (map (\<lambda>n. NumericWidth (real n)) ns)) wa =
     (let total = real (sum_list ns + (length ns + 1) * 8)
      in if total \<le> rect_width wa then PHASE_1
         else if total \<le> double_mul (rect_width wa) (CANVAS_EXPANSION_RATIO c) then PHASE_2
         else PHASE_3)"
proof -
  from assms(2) have s: "0 + sum_list ns < 2 ^ 53" and l: "length ns + 1 < 2 ^ 53"
    and sp: "(length ns + 1) * 8 < 2 ^ 53"
    by simp_all
  have map: "map (\<lambda>n. NumericWidth (real n)) ns = map NumericWidth (map real ns)"
    by simp
  have sum: "foldl (\<lambda>sum w. double_add sum (window_width w)) 0
               (map (\<lambda>n. NumericWidth (real n)) ns) = real (sum_list ns)"
    unfolding map foldl_widths_numeric
    using foldl_double_add_nat [OF s] by simp
  have len: "double_add (real (length ns)) 1 = real (length ns + 1)"
    using round_double_nat [OF l] by (simp add: double_add_def add.commute)
  have spacing: "double_mul (real (length ns + 1)) WINDOW_SPACING = real ((length ns + 1) * 8)"
    using round_double_nat [OF sp] by (simp add: double_mul_def WINDOW_SPACING_def)
  have total: "double_add (real (sum_list ns)) (real ((length ns + 1) * 8))
                 = real (sum_list ns + (length ns + 1) * 8)"
    using round_double_nat [OF assms(2)] by (simp add: double_add_def)
  from assms(1) have ne: "map (\<lambda>n. NumericWidth (real n)) ns \<noteq> []" by simp
  show ?thesis
    unfolding calculatePhase_nonempty [OF ne] sum
    by (simp only: length_map len spacing total)
qed

text \<open>
  Claim C5, as the code has it. A missing or empty window array is classified \<open>PHASE_1\<close>.
  For a non-empty array of windows with numeric widths, \<open>calculatePhase\<close> adds the widths
  from left to right in double arithmetic, adds \<open>(count + 1) * WINDOW_SPACING\<close>, and answers
  \<open>PHASE_1\<close> when the total fits the work-area width, \<open>PHASE_2\<close> when it fits the
  work-area width times the expansion ratio, and \<open>PHASE_3\<close> otherwise. When the widths
  are whole numbers of pixels and the total stays below \<open>2 ^ 53\<close>, the total is exactly
  the sum of the widths plus the spacing, and two arrays with the same multiset of widths
  get the same phase. The phase never moves backward when widths grow, whatever the widths.
\<close>

theorem calculatePhase_classifies:
  "calculatePhase c None wa = PHASE_1 \<and>
   calculatePhase c (Some []) wa = PHASE_1 \<and>
   (widths \<noteq> [] \<longrightarrow>
      calculatePhase c (Some (map NumericWidth widths)) wa =
        (let total = double_add (foldl double_add 0 widths)
                       (double_mul (double_add (real (length widths)) 1) WINDOW_SPACING)
         in if total \<le> rect_width wa then PHASE_1
            else if total \<le> double_mul (rect_width wa) (CANVAS_EXPANSION_RATIO c) then PHASE_2
            else PHASE_3)) \<and>
   (ns \<noteq> [] \<and> sum_list ns + (length ns + 1) * 8 < 2 ^ 53 \<longrightarrow>
      calculatePhase c (Some (map (\<lambda>n. NumericWidth (real n)) ns)) wa =
        (let total = real (sum_list ns + (length ns + 1) * 8)
         in if total \<le> rect_width wa then PHASE_1
            else if total \<le> double_mul (rect_width wa) (CANVAS_EXPANSION_RATIO c) then PHASE_2
            else PHASE_3)) \<and>
   (mset ns = mset ns' \<and> sum_list ns + (length ns + 1) * 8 < 2 ^ 53 \<longrightarrow>
      calculatePhase c (Some (map (\<lambda>n. NumericWidth (real n)) ns)) wa
        = calculatePhase c (Some (map (\<lambda>n. NumericWidth (real n)) ns')) wa) \<and>
   (list_all2 (\<lambda>a b. window_width a \<le> window_width b) ws ws' \<longrightarrow>
      phase_number (calculatePhase c (Some ws) wa)
        \<le> phase_number (calculatePhase c (Some ws') wa))"
proof (intro conjI impI)
  show "calculatePhase c None wa = PHASE_1"
    by (simp add: calculatePhase_def)
  show "calculatePhase c (Some []) wa = PHASE_1"
    by (simp add: calculatePhase_def)
next
  assume "widths \<noteq> []"
  then have "map NumericWidth widths \<noteq> []" by simp
  from calculatePhase_nonempty [OF this]
  show "calculatePhase c (Some (map NumericWidth widths)) wa =
        (let total = double_add (foldl double_add 0 widths)
                       (double_mul (double_add (real (length widths)) 1) WINDOW_SPACING)
         in if total \<le> rect_width wa then PHASE_1
            else if total \<le> double_mul (rect_width wa) (CANVAS_EXPANSION_RATIO c) then PHASE_2
            else PHASE_3)"
    by (simp add: foldl_widths_numeric)
next
  assume "ns \<noteq> [] \<and> sum_list ns + (length ns + 1) * 8 < 2 ^ 53"
  then have "ns \<noteq> []" and "sum_list ns + (length ns + 1) * 8 < 2 ^ 53"
    by simp_all
  then show "calculatePhase c (Some (map (\<lambda>n. NumericWidth (real n)) ns)) wa =
        (let total = real (sum_list ns + (length ns + 1) * 8)
         in if total \<le> rect_width wa then PHASE_1
            else if total \<le> double_mul (rect_width wa) (CANVAS_EXPANSION_RATIO c) then PHASE_2
            else PHASE_3)"
    by (rule calculatePhase_pixels)
next
  assume a: "mset ns = mset ns' \<and> sum_list ns + (length ns + 1) * 8 < 2 ^ 53"
  then have len: "length ns = length ns'"
    by (metis size_mset)
  from a have sum: "sum_list ns = sum_list ns'"
    by (metis sum_mset_sum_list)
  show "calculatePhase c (Some (map (\<lambda>n. NumericWidth (real n)) ns)) wa
        = calculatePhase c (Some (map (\<lambda>n. NumericWidth (real n)) ns')) wa"
  proof (cases "ns = []")
    case True
    with len show ?thesis by simp
  next
    case False
    with len have ne': "ns' \<noteq> []" by auto
    from a sum len have b': "sum_list ns' + (length ns' + 1) * 8 < 2 ^ 53" by simp
    from a have b: "sum_list ns + (length ns + 1) * 8 < 2 ^ 53" by simp
    show ?thesis
      unfolding calculatePhase_pixels [OF False b] calculatePhase_pixels [OF ne' b']
      by (simp only: sum len)
  qed
next
  assume a: "list_all2 (\<lambda>a b. window_width a \<le> window_width b) ws ws'"
  have len: "length ws = length ws'"
    using a by (rule list_all2_lengthD)
  have sum: "foldl (\<lambda>sum w. double_add sum (window_width w)) 0 ws
               \<le> foldl (\<lambda>sum w. double_add sum (window_width w)) 0 ws'"
    using a by (rule foldl_widths_mono) simp
  show "phase_number (calculatePhase c (Some ws) wa)
        \<le> phase_number (calculatePhase c (Some ws') wa)"
  proof (cases "ws = []")
    case True
    with len show ?thesis by simp
  next
    case False
    with len have ne': "ws' \<noteq> []" by auto
    have "double_add (foldl (\<lambda>sum w. double_add sum (window_width w)) 0 ws)
            (double_mul (double_add (real (length ws)) 1) WINDOW_SPACING)
          \<le> double_add (foldl (\<lambda>sum w. double_add sum (window_width w)) 0 ws')
            (double_mul (double_add (real (length ws')) 1) WINDOW_SPACING)"
      unfolding double_add_def [of "foldl _ _ _"] len
      using sum by (intro round_double_mono) simp
    then show ?thesis
      unfolding calculatePhase_nonempty [OF False] calculatePhase_nonempty [OF ne'] Let_def
      by (rule phase_of_total_mono)
  qed
qed

theorem calculatePhase_classifies_witness:
  "[500, 500, 500] \<noteq> ([]::real list) \<and>
   [500, 500, 500] \<noteq> ([]::nat list) \<and>
   sum_list [500, 500, 500] + (length [500, 500, 500::nat] + 1) * 8 < (2::nat) ^ 53 \<and>
   calculatePhase c0 (Some (map (\<lambda>n. NumericWidth (real n)) [500, 500, 500])) wa0 = PHASE_2 \<and>
   mset [300, 1000] = mset [1000, 300::nat] \<and>
   sum_list [300, 1000] + (length [300, 1000::nat] + 1) * 8 < (2::nat) ^ 53 \<and>
   calculatePhase c0 (Some (map (\<lambda>n. NumericWidth (real n)) [300, 1000])) wa0
     = calculatePhase c0 (Some (map (\<lambda>n. NumericWidth (real n)) [1000, 300])) wa0 \<and>
   list_all2 (\<lambda>a b. window_width a \<le> window_width b)
     [NumericWidth 300, NumericWidth 400] [NumericWidth 300, FrameRectFn (Some wa0)] \<and>
   phase_number (calculatePhase c0 (Some [NumericWidth 300, NumericWidth 400]) wa0)
     \<le> phase_number (calculatePhase c0 (Some [NumericWidth 300, FrameRectFn (Some wa0)]) wa0)"
proof -
  have canvas: "double_mul (rect_width wa0) (CANVAS_EXPANSION_RATIO c0) = 2560"
    by (simp add: double_mul_def wa0_def c0_def round_double_numeral)
  have h1: "[500, 500, 500] \<noteq> ([]::nat list) \<and>
      sum_list [500, 500, 500] + (length [500, 500, 500::nat] + 1) * 8 < (2::nat) ^ 53"
    by simp
  have h2: "mset [300, 1000] = mset [1000, 300::nat] \<and>
      sum_list [300, 1000] + (length [300, 1000::nat] + 1) * 8 < (2::nat) ^ 53"
    by simp
  have h3: "list_all2 (\<lambda>a b. window_width a \<le> window_width b)
     [NumericWidth 300, NumericWidth 400] [NumericWidth 300, FrameRectFn (Some wa0)]"
    by (simp add: wa0_def)
  from calculatePhase_classifies [where c = c0 and wa = wa0 and ns = "[500, 500, 500]"]
    h1
  have a: "calculatePhase c0 (Some (map (\<lambda>n. NumericWidth (real n)) [500, 500, 500])) wa0 =
        (let total = real (sum_list [500, 500, 500] + (length [500, 500, 500::nat] + 1) * 8)
         in if total \<le> rect_width wa0 then PHASE_1
            else if total \<le> double_mul (rect_width wa0) (CANVAS_EXPANSION_RATIO c0) then PHASE_2
            else PHASE_3)"
    by blast
  from calculatePhase_classifies [where c = c0 and wa = wa0 and ns = "[300, 1000]"
      and ns' = "[1000, 300]" and ws = "[NumericWidth 300, NumericWidth 400]"
      and ws' = "[NumericWidth 300, FrameRectFn (Some wa0)]"]
    h2 h3
  have b: "calculatePhase c0 (Some (map (\<lambda>n. NumericWidth (real n)) [300, 1000])) wa0
        = calculatePhase c0 (Some (map (\<lambda>n. NumericWidth (real n)) [1000, 300])) wa0"
    and d: "phase_number (calculatePhase c0 (Some [NumericWidth 300, NumericWidth 400]) wa0)
        \<le> phase_number (calculatePhase c0 (Some [NumericWidth 300, FrameRectFn (Some wa0)]) wa0)"
    by blast+
  have a': "calculatePhase c0 (Some (map (\<lambda>n. NumericWidth (real n)) [500, 500, 500])) wa0 = PHASE_2"
    unfolding a canvas by (simp add: wa0_def)
  from a' b d h1 h2 h3 show ?thesis
    by simp
qed


text \<open>
  Claim C5 as stated makes the phase depend only on the multiset of widths. With the
  fractional widths 0.1, 15.7 and 0.3 the sum from left to right is 16.099999999999998
  and the sum in the reverse order is 16.1: on a work area 48.099999999999994 wide the
  first order is \<open>PHASE_1\<close> and the second \<open>PHASE_2\<close>.
\<close>

theorem calculatePhase_order_counterexample:
  "mset [width_tenth, width_15_7, width_three_tenths]
     = mset [width_three_tenths, width_15_7, width_tenth] \<and>
   calculatePhase c0 (Some (map NumericWidth [width_tenth, width_15_7, width_three_tenths])) wa_48
     = PHASE_1 \<and>
   calculatePhase c0 (Some (map NumericWidth [width_three_tenths, width_15_7, width_tenth])) wa_48
     = PHASE_2"
proof -
  have a1: "double_add 0 width_tenth = width_tenth"
    unfolding double_add_def width_tenth_def width_15_7_def width_three_tenths_def
    by (rule round_double_eval [where k = 56 and m = "7205759403792794"])
      (simp_all add: round_half_even_def subnormal_bits_def)
  have a2: "double_add width_tenth width_15_7 = 8894609264056729 / 562949953421312"
    unfolding double_add_def width_tenth_def width_15_7_def width_three_tenths_def
    by (rule round_double_eval [where k = 49 and m = "8894609264056729"])
      (simp_all add: round_half_even_def subnormal_bits_def)
  have a3: "double_add (8894609264056729 / 562949953421312) width_three_tenths = 4531747125041561 / 281474976710656"
    unfolding double_add_def width_tenth_def width_15_7_def width_three_tenths_def
    by (rule round_double_eval [where k = 48 and m = "4531747125041561"])
      (simp_all add: round_half_even_def subnormal_bits_def)
  have a4: "double_add (4531747125041561 / 281474976710656) 32 = 1692368297472819 / 35184372088832"
    unfolding double_add_def width_tenth_def width_15_7_def width_three_tenths_def
    by (rule round_double_eval [where k = 47 and m = "6769473189891276"])
      (simp_all add: round_half_even_def subnormal_bits_def)
  have b1: "double_add 0 width_three_tenths = width_three_tenths"
    unfolding double_add_def width_tenth_def width_15_7_def width_three_tenths_def
    by (rule round_double_eval [where k = 54 and m = "5404319552844595"])
      (simp_all add: round_half_even_def subnormal_bits_def)
  have b2: "double_add width_three_tenths width_15_7 = 16"
    unfolding double_add_def width_tenth_def width_15_7_def width_three_tenths_def
    by (rule round_double_eval [where k = 49 and m = "9007199254740992"])
      (simp_all add: round_half_even_def subnormal_bits_def)
  have b3: "double_add 16 width_tenth = 2265873562520781 / 140737488355328"
    unfolding double_add_def width_tenth_def width_15_7_def width_three_tenths_def
    by (rule round_double_eval [where k = 48 and m = "4531747125041562"])
      (simp_all add: round_half_even_def subnormal_bits_def)
  have b4: "double_add (2265873562520781 / 140737488355328) 32 = 6769473189891277 / 140737488355328"
    unfolding double_add_def width_tenth_def width_15_7_def width_three_tenths_def
    by (rule round_double_eval [where k = 47 and m = "6769473189891277"])
      (simp_all add: round_half_even_def subnormal_bits_def)
  have cv: "double_mul (1692368297472819 / 35184372088832) 2 = 1692368297472819 / 17592186044416"
    unfolding double_mul_def
    by (rule round_double_eval [where k = 46 and m = "6769473189891276"])
      (simp_all add: round_half_even_def subnormal_bits_def)

  have sp: "double_mul (double_add 3 1) WINDOW_SPACING = 32"
    by (simp add: double_mul_def double_add_def WINDOW_SPACING_def round_double_numeral)
  have perm: "mset [width_tenth, width_15_7, width_three_tenths]
     = mset [width_three_tenths, width_15_7, width_tenth]"
    using mset_rev [of "[width_tenth, width_15_7, width_three_tenths]"] by simp
  have first: "calculatePhase c0
      (Some (map NumericWidth [width_tenth, width_15_7, width_three_tenths])) wa_48 = PHASE_1"
    by (simp add: calculatePhase_def Let_def a1 a2 a3 sp a4 wa_48_def)
  have second: "calculatePhase c0
      (Some (map NumericWidth [width_three_tenths, width_15_7, width_tenth])) wa_48 = PHASE_2"
    by (simp add: calculatePhase_def Let_def b1 b2 b3 sp b4 cv wa_48_def c0_def)
  from perm first second show ?thesis by simp
qed

section \<open>Effective work area\<close>

lemma round_double_half_int:
  assumes "\<bar>m\<bar> < 2 ^ 53"
  shows "round_double (of_int m / 2) = of_int m / 2"
  using round_double_exact [OF assms, of 1] by (simp add: subnormal_bits_def)

text \<open>
  Claim C6, as the code has it. \<open>getEffectiveWorkArea\<close> returns the work area unchanged
  in \<open>PHASE_1\<close> and in \<open>PHASE_3\<close>. In \<open>PHASE_2\<close>, with \<open>extra = width * (ratio - 1)\<close>,
  the result has \<open>x - extra / 2\<close> for its x, \<open>width + extra\<close> for its width, each
  operation in double arithmetic, and the same y and height. When the ratio is 2 and the
  work area's x and width are whole numbers below \<open>2 ^ 50\<close> in magnitude, the result is
  exactly \<open>x - width / 2\<close> and \<open>2 * width\<close>, and its horizontal centre
  \<open>x + width / 2\<close>, computed as the program would, equals that of the work area exactly.
\<close>

theorem getEffectiveWorkArea_spec:
  "getEffectiveWorkArea c wa PHASE_1 = wa \<and>
   getEffectiveWorkArea c wa PHASE_3 = wa \<and>
   rect_x (getEffectiveWorkArea c wa PHASE_2)
     = double_sub (rect_x wa)
         (double_div (double_mul (rect_width wa) (double_sub (CANVAS_EXPANSION_RATIO c) 1)) 2) \<and>
   rect_width (getEffectiveWorkArea c wa PHASE_2)
     = double_add (rect_width wa)
         (double_mul (rect_width wa) (double_sub (CANVAS_EXPANSION_RATIO c) 1)) \<and>
   rect_y (getEffectiveWorkArea c wa PHASE_2) = rect_y wa \<and>
   rect_height (getEffectiveWorkArea c wa PHASE_2) = rect_height wa \<and>
   (CANVAS_EXPANSION_RATIO c = 2 \<and> rect_x wa = of_int xi \<and> rect_width wa = of_int wi \<and>
    \<bar>xi\<bar> < 2 ^ 50 \<and> \<bar>wi\<bar> < 2 ^ 50 \<longrightarrow>
      rect_x (getEffectiveWorkArea c wa PHASE_2) = rect_x wa - rect_width wa / 2 \<and>
      rect_width (getEffectiveWorkArea c wa PHASE_2) = 2 * rect_width wa \<and>
      double_add (rect_x (getEffectiveWorkArea c wa PHASE_2))
          (double_div (rect_width (getEffectiveWorkArea c wa PHASE_2)) 2)
        = double_add (rect_x wa) (double_div (rect_width wa) 2) \<and>
      double_add (rect_x wa) (double_div (rect_width wa) 2) = rect_x wa + rect_width wa / 2)"
proof (intro conjI impI)
  show "getEffectiveWorkArea c wa PHASE_1 = wa" and "getEffectiveWorkArea c wa PHASE_3 = wa"
    by (simp_all add: getEffectiveWorkArea_def)
  show "rect_x (getEffectiveWorkArea c wa PHASE_2)
     = double_sub (rect_x wa)
         (double_div (double_mul (rect_width wa) (double_sub (CANVAS_EXPANSION_RATIO c) 1)) 2)"
    and "rect_width (getEffectiveWorkArea c wa PHASE_2)
     = double_add (rect_width wa)
         (double_mul (rect_width wa) (double_sub (CANVAS_EXPANSION_RATIO c) 1))"
    and "rect_y (getEffectiveWorkArea c wa PHASE_2) = rect_y wa"
    and "rect_height (getEffectiveWorkArea c wa PHASE_2) = rect_height wa"
    by (simp_all add: getEffectiveWorkArea_def Let_def)
next
  assume h: "CANVAS_EXPANSION_RATIO c = 2 \<and> rect_x wa = of_int xi \<and> rect_width wa = of_int wi \<and>
    \<bar>xi\<bar> < 2 ^ 50 \<and> \<bar>wi\<bar> < 2 ^ 50"
  then have ratio: "CANVAS_EXPANSION_RATIO c = 2" and x: "rect_x wa = of_int xi"
    and w: "rect_width wa = of_int wi" and bx: "\<bar>xi\<bar> < 2 ^ 50" and bw: "\<bar>wi\<bar> < 2 ^ 50"
    by simp_all
  from bw have w53: "\<bar>wi\<bar> < 2 ^ 53" and w2: "\<bar>2 * wi\<bar> < 2 ^ 53" by simp_all
  from bx bw have d: "\<bar>2 * xi - wi\<bar> < 2 ^ 53" and s: "\<bar>2 * xi + wi\<bar> < 2 ^ 53" by simp_all
  have one: "double_sub 2 1 = 1"
    by (simp add: double_sub_def round_double_1)
  have extra: "double_mul (of_int wi) 1 = of_int wi"
    using round_double_of_int [OF w53] by (simp add: double_mul_def)
  have half: "double_div (of_int wi) 2 = of_int wi / 2"
    using round_double_half_int [OF w53] by (simp add: double_div_def)
  have newx: "double_sub (of_int xi) (of_int wi / 2) = of_int xi - of_int wi / 2"
  proof -
    have "real_of_int xi - of_int wi / 2 = of_int (2 * xi - wi) / 2" by simp
    with round_double_half_int [OF d] show ?thesis
      by (simp only: double_sub_def)
  qed
  have neww: "double_add (of_int wi) (of_int wi) = 2 * of_int wi"
    using round_double_of_int [OF w2] by (simp add: double_add_def)
  have halfnew: "double_div (2 * of_int wi) 2 = of_int wi"
    using round_double_of_int [OF w53] by (simp add: double_div_def)
  have centre: "double_add (of_int xi) (of_int wi / 2) = of_int xi + of_int wi / 2"
  proof -
    have "real_of_int xi + of_int wi / 2 = of_int (2 * xi + wi) / 2" by simp
    with round_double_half_int [OF s] show ?thesis
      by (simp only: double_add_def)
  qed
  have centre': "double_add (of_int xi - of_int wi / 2) (of_int wi) = of_int xi + of_int wi / 2"
  proof -
    have "real_of_int xi - of_int wi / 2 + of_int wi = of_int (2 * xi + wi) / 2" by simp
    with round_double_half_int [OF s] show ?thesis
      by (simp only: double_add_def)
  qed
  have rx: "rect_x (getEffectiveWorkArea c wa PHASE_2) = of_int xi - of_int wi / 2"
    by (simp add: getEffectiveWorkArea_def Let_def ratio x w one extra half newx)
  have rw: "rect_width (getEffectiveWorkArea c wa PHASE_2) = 2 * of_int wi"
    by (simp add: getEffectiveWorkArea_def Let_def ratio x w one extra neww)
  show "rect_x (getEffectiveWorkArea c wa PHASE_2) = rect_x wa - rect_width wa / 2"
    by (simp only: rx x w)
  show "rect_width (getEffectiveWorkArea c wa PHASE_2) = 2 * rect_width wa"
    by (simp only: rw w)
  show "double_add (rect_x (getEffectiveWorkArea c wa PHASE_2))
          (double_div (rect_width (getEffectiveWorkArea c wa PHASE_2)) 2)
        = double_add (rect_x wa) (double_div (rect_width wa) 2)"
    by (simp only: rx rw x w halfnew half centre centre')
  show "double_add (rect_x wa) (double_div (rect_width wa) 2) = rect_x wa + rect_width wa / 2"
    by (simp only: x w half centre)
qed

theorem getEffectiveWorkArea_spec_witness:
  "CANVAS_EXPANSION_RATIO c0 = 2 \<and> rect_x wa0 = of_int 0 \<and> rect_width wa0 = of_int 1280 \<and>
   \<bar>0::int\<bar> < 2 ^ 50 \<and> \<bar>1280::int\<bar> < 2 ^ 50 \<and>
   rect_x (getEffectiveWorkArea c0 wa0 PHASE_2) = - 640 \<and>
   rect_width (getEffectiveWorkArea c0 wa0 PHASE_2) = 2560 \<and>
   double_add (rect_x (getEffectiveWorkArea c0 wa0 PHASE_2))
       (double_div (rect_width (getEffectiveWorkArea c0 wa0 PHASE_2)) 2) = 640 \<and>
   double_add (rect_x wa0) (double_div (rect_width wa0) 2) = 640"
proof -
  have h: "CANVAS_EXPANSION_RATIO c0 = 2 \<and> rect_x wa0 = of_int 0 \<and> rect_width wa0 = of_int 1280 \<and>
      \<bar>0::int\<bar> < 2 ^ 50 \<and> \<bar>1280::int\<bar> < 2 ^ 50"
    by (simp add: c0_def wa0_def)
  have v: "rect_x wa0 - rect_width wa0 / 2 = - 640" "2 * rect_width wa0 = 2560"
    "rect_x wa0 + rect_width wa0 / 2 = 640"
    by (simp_all add: wa0_def)
  from getEffectiveWorkArea_spec [where c = c0 and wa = wa0 and xi = 0 and wi = 1280] h
  have "rect_x (getEffectiveWorkArea c0 wa0 PHASE_2) = rect_x wa0 - rect_width wa0 / 2"
    and "rect_width (getEffectiveWorkArea c0 wa0 PHASE_2) = 2 * rect_width wa0"
    and "double_add (rect_x (getEffectiveWorkArea c0 wa0 PHASE_2))
          (double_div (rect_width (getEffectiveWorkArea c0 wa0 PHASE_2)) 2)
        = double_add (rect_x wa0) (double_div (rect_width wa0) 2)"
    and "double_add (rect_x wa0) (double_div (rect_width wa0) 2) = rect_x wa0 + rect_width wa0 / 2"
    by blast+
  with h v show ?thesis
    by (simp only: simp_thms)
qed

text \<open>
  Claim C6 as stated has the two centres equal for every work area. For the work area at
  x = 5.1 with width 1.7 and the ratio 2, the result is at x = 4.25 with width 3.4, whose
  centre is the double 5.95, while the centre of the work area is the double
  5.949999999999999, one unit in the last place below.
\<close>

theorem getEffectiveWorkArea_centre_counterexample:
  "double_add (rect_x (getEffectiveWorkArea c0 wa_frac PHASE_2))
       (double_div (rect_width (getEffectiveWorkArea c0 wa_frac PHASE_2)) 2)
     = 6699104445713613 / 1125899906842624 \<and>
   double_add (rect_x wa_frac) (double_div (rect_width wa_frac) 2)
     = 6699104445713612 / 1125899906842624 \<and>
   double_add (rect_x (getEffectiveWorkArea c0 wa_frac PHASE_2))
       (double_div (rect_width (getEffectiveWorkArea c0 wa_frac PHASE_2)) 2)
     \<noteq> double_add (rect_x wa_frac) (double_div (rect_width wa_frac) 2)"
proof -
  have e0: "double_sub 2 1 = 1"
    unfolding double_add_def double_sub_def double_mul_def double_div_def frac_x_def frac_width_def
    by (rule round_double_eval [where k = 52 and m = "4503599627370496"])
      (simp_all add: round_half_even_def subnormal_bits_def)
  have e1: "double_mul frac_width 1 = frac_width"
    unfolding double_add_def double_sub_def double_mul_def double_div_def frac_x_def frac_width_def
    by (rule round_double_eval [where k = 52 and m = "7656119366529843"])
      (simp_all add: round_half_even_def subnormal_bits_def)
  have e2: "double_div frac_width 2 = 7656119366529843 / 9007199254740992"
    unfolding double_add_def double_sub_def double_mul_def double_div_def frac_x_def frac_width_def
    by (rule round_double_eval [where k = 53 and m = "7656119366529843"])
      (simp_all add: round_half_even_def subnormal_bits_def)
  have e3: "double_sub frac_x (7656119366529843 / 9007199254740992) = 17 / 4"
    unfolding double_add_def double_sub_def double_mul_def double_div_def frac_x_def frac_width_def
    by (rule round_double_eval [where k = 50 and m = "4785074604081152"])
      (simp_all add: round_half_even_def subnormal_bits_def)
  have e4: "double_add frac_width frac_width = 7656119366529843 / 2251799813685248"
    unfolding double_add_def double_sub_def double_mul_def double_div_def frac_x_def frac_width_def
    by (rule round_double_eval [where k = 51 and m = "7656119366529843"])
      (simp_all add: round_half_even_def subnormal_bits_def)
  have e5: "double_div (7656119366529843 / 2251799813685248) 2 = 7656119366529843 / 4503599627370496"
    unfolding double_add_def double_sub_def double_mul_def double_div_def frac_x_def frac_width_def
    by (rule round_double_eval [where k = 52 and m = "7656119366529843"])
      (simp_all add: round_half_even_def subnormal_bits_def)
  have e6: "double_add (17 / 4) (7656119366529843 / 4503599627370496) = 6699104445713613 / 1125899906842624"
    unfolding double_add_def double_sub_def double_mul_def double_div_def frac_x_def frac_width_def
    by (rule round_double_eval [where k = 50 and m = "6699104445713613"])
      (simp_all add: round_half_even_def subnormal_bits_def)
  have e7: "double_add frac_x (7656119366529843 / 9007199254740992) = 1674776111428403 / 281474976710656"
    unfolding double_add_def double_sub_def double_mul_def double_div_def frac_x_def frac_width_def
    by (rule round_double_eval [where k = 50 and m = "6699104445713612"])
      (simp_all add: round_half_even_def subnormal_bits_def)
  have rx: "rect_x (getEffectiveWorkArea c0 wa_frac PHASE_2) = 17 / 4"
    by (simp add: getEffectiveWorkArea_def Let_def c0_def wa_frac_def e0 e1 e2 e3)
  have rw: "rect_width (getEffectiveWorkArea c0 wa_frac PHASE_2)
      = 7656119366529843 / 2251799813685248"
    by (simp add: getEffectiveWorkArea_def Let_def c0_def wa_frac_def e0 e1 e4)
  have after: "double_add (rect_x (getEffectiveWorkArea c0 wa_frac PHASE_2))
       (double_div (rect_width (getEffectiveWorkArea c0 wa_frac PHASE_2)) 2)
     = 6699104445713613 / 1125899906842624"
    by (simp only: rx rw e5 e6)
  have before: "double_add (rect_x wa_frac) (double_div (rect_width wa_frac) 2)
     = 6699104445713612 / 1125899906842624"
    by (simp add: wa_frac_def e2 e7)
  show ?thesis
    unfolding after before by simp
qed


section \<open>Clamping the viewport\<close>

text \<open>
  Claim C7. Clamping a clamped offset changes nothing, for every offset and every work area.
  The clamped offset is never below the left pan limit \<open>- (width * CANVAS_PAN_LEFT)\<close>, and
  for a work area of non-negative width it is never above the right pan limit
  \<open>width * CANVAS_PAN_RIGHT\<close>, as soon as the two pan ratios, which are constants of the
  program, do not sum to a negative number.
\<close>

theorem clampViewportX_idempotent_bounded:
  "clampViewportX c (clampViewportX c v wa) wa = clampViewportX c v wa \<and>
   - (rect_width wa * CANVAS_PAN_LEFT c) \<le> clampViewportX c v wa \<and>
   (0 \<le> rect_width wa \<and> 0 \<le> CANVAS_PAN_LEFT c + CANVAS_PAN_RIGHT c \<longrightarrow>
      clampViewportX c v wa \<le> rect_width wa * CANVAS_PAN_RIGHT c)"
proof (intro conjI impI)
  show "clampViewportX c (clampViewportX c v wa) wa = clampViewportX c v wa"
    by (simp add: clampViewportX_def Math_max_def Math_min_def Let_def max_def min_def)
  show "- (rect_width wa * CANVAS_PAN_LEFT c) \<le> clampViewportX c v wa"
    by (simp add: clampViewportX_def Math_max_def Math_min_def Let_def)
next
  assume h: "0 \<le> rect_width wa \<and> 0 \<le> CANVAS_PAN_LEFT c + CANVAS_PAN_RIGHT c"
  then have "0 \<le> rect_width wa * (CANVAS_PAN_LEFT c + CANVAS_PAN_RIGHT c)"
    by simp
  then have le: "- (rect_width wa * CANVAS_PAN_LEFT c) \<le> rect_width wa * CANVAS_PAN_RIGHT c"
    by (simp add: algebra_simps)
  show "clampViewportX c v wa \<le> rect_width wa * CANVAS_PAN_RIGHT c"
    using le by (simp add: clampViewportX_def Math_max_def Math_min_def Let_def)
qed


theorem clampViewportX_idempotent_bounded_witness:
  "(0::real) \<le> rect_width wa0 \<and> 0 \<le> CANVAS_PAN_LEFT c0 + CANVAS_PAN_RIGHT c0 \<and>
   clampViewportX c0 1000 wa0 = 640 \<and>
   clampViewportX c0 (clampViewportX c0 1000 wa0) wa0 = 640 \<and>
   - (rect_width wa0 * CANVAS_PAN_LEFT c0) \<le> clampViewportX c0 1000 wa0 \<and>
   clampViewportX c0 1000 wa0 \<le> rect_width wa0 * CANVAS_PAN_RIGHT c0"
  using clampViewportX_idempotent_bounded [of c0 1000 wa0]
  by (simp add: c0_def wa0_def clampViewportX_def Math_max_def Math_min_def)


section \<open>Reconciling one window with the viewport\<close>

lemmas actor_ops = remove_all_transitions_def set_translation_def set_position_def
  remove_clip_def set_clip_def queue_relayout_def

text \<open>
  Claim C1. For a window that has an actor, with scroll offset 0, a computed translation
  of 0 (the floored target left edge is not before the floored viewport left edge) and a
  target right edge at or before the viewport right edge, \<open>applyViewportClip\<close> leaves the
  actor without clip and with zero translation, removes the window from the clipped set,
  and returns the floored target x and the target y.
\<close>

theorem applyViewportClip_noop_case:
  assumes "compositor_private w = Some a"
    and "scrollOffset m = 0"
    and "\<not> Math_floor (rect_x t) < Math_floor (vp_x vp)"
    and "Math_floor (rect_x t) + Math_floor (rect_width t) \<le> Math_floor (vp_x vp + vp_width vp)"
  shows "\<exists>a'. applyViewportClip m w t vp =
           (\<lparr>pos_x = Math_floor (rect_x t), pos_y = rect_y t\<rparr>,
            m\<lparr>clippedWindows := clippedWindows m - {win_id w}\<rparr>,
            w\<lparr>compositor_private := Some a'\<rparr>)
         \<and> clip a' = None
         \<and> translation_x a' = 0 \<and> translation_y a' = 0 \<and> translation_z a' = 0"
  using assms
  by (auto simp add: applyViewportClip_def Let_def actor_ops)

theorem applyViewportClip_noop_case_witness:
  "compositor_private window_ex = Some actor_ex \<and>
   scrollOffset manager_ex = 0 \<and>
   \<not> Math_floor (rect_x target_inside) < Math_floor (vp_x viewport_ex) \<and>
   Math_floor (rect_x target_inside) + Math_floor (rect_width target_inside)
     \<le> Math_floor (vp_x viewport_ex + vp_width viewport_ex) \<and>
   fst (applyViewportClip manager_ex window_ex target_inside viewport_ex)
     = \<lparr>pos_x = 100, pos_y = 50\<rparr> \<and>
   clippedWindows (fst (snd (applyViewportClip manager_ex window_ex target_inside viewport_ex))) = {} \<and>
   map_option clip (compositor_private
       (snd (snd (applyViewportClip manager_ex window_ex target_inside viewport_ex)))) = Some None \<and>
   map_option translation_x (compositor_private
       (snd (snd (applyViewportClip manager_ex window_ex target_inside viewport_ex)))) = Some 0"
proof -
  have h1: "compositor_private window_ex = Some actor_ex"
    by (simp add: window_ex_def)
  have h2: "scrollOffset manager_ex = 0"
    by (simp add: manager_ex_def)
  have h3: "\<not> Math_floor (rect_x target_inside) < Math_floor (vp_x viewport_ex)"
    by (simp add: target_inside_def viewport_ex_def Math_floor_def)
  have h4: "Math_floor (rect_x target_inside) + Math_floor (rect_width target_inside)
     \<le> Math_floor (vp_x viewport_ex + vp_width viewport_ex)"
    by (simp add: target_inside_def viewport_ex_def Math_floor_def)
  have v: "Math_floor (rect_x target_inside) = 100" "rect_y target_inside = 50"
    "clippedWindows manager_ex - {win_id window_ex} = {}"
    by (simp_all add: target_inside_def Math_floor_def manager_ex_def window_ex_def)
  from applyViewportClip_noop_case [OF h1 h2 h3 h4] h1 h2 h3 h4 show ?thesis
    by (auto simp add: v)
qed

text \<open>
  Claim C2. For a window that has an actor, the x that \<open>applyViewportClip\<close> returns is
  never before the floored viewport left edge: it is the viewport left edge when the
  offset-adjusted, floored target left edge lies before it, and that target left edge
  otherwise. Nothing is clamped on the right: a target that overflows only on the right is
  returned with its left edge unchanged.
\<close>

theorem applyViewportClip_left_clamp_only:
  assumes "compositor_private w = Some a"
  shows "Math_floor (vp_x vp) \<le> pos_x (fst (applyViewportClip m w t vp)) \<and>
         pos_x (fst (applyViewportClip m w t vp)) =
           (if Math_floor (rect_x t + scrollOffset m) < Math_floor (vp_x vp)
            then Math_floor (vp_x vp)
            else Math_floor (rect_x t + scrollOffset m)) \<and>
         (Math_floor (vp_x vp) \<le> Math_floor (rect_x t + scrollOffset m) \<and>
          Math_floor (vp_x vp + vp_width vp)
            < Math_floor (rect_x t + scrollOffset m) + Math_floor (rect_width t) \<longrightarrow>
          pos_x (fst (applyViewportClip m w t vp)) = Math_floor (rect_x t + scrollOffset m))"
  using assms
  by (simp add: applyViewportClip_def Let_def)

theorem applyViewportClip_left_clamp_only_witness:
  "compositor_private window_ex = Some actor_ex \<and>
   Math_floor (vp_x viewport_ex) \<le> Math_floor (rect_x target_right + scrollOffset manager_ex) \<and>
   Math_floor (vp_x viewport_ex + vp_width viewport_ex)
     < Math_floor (rect_x target_right + scrollOffset manager_ex) + Math_floor (rect_width target_right) \<and>
   pos_x (fst (applyViewportClip manager_ex window_ex target_right viewport_ex)) = 1000 \<and>
   pos_x (fst (applyViewportClip manager_ex window_ex target_left viewport_ex)) = 0"
proof -
  have h1: "compositor_private window_ex = Some actor_ex"
    by (simp add: window_ex_def)
  have v: "Math_floor (vp_x viewport_ex) = 0"
    "Math_floor (rect_x target_right + scrollOffset manager_ex) = 1000"
    "Math_floor (rect_x target_left + scrollOffset manager_ex) = - 300"
    "Math_floor (rect_width target_right) = 400"
    "Math_floor (vp_x viewport_ex + vp_width viewport_ex) = 1280"
    by (simp_all add: viewport_ex_def target_right_def target_left_def manager_ex_def Math_floor_def)
  from applyViewportClip_left_clamp_only [OF h1, of viewport_ex manager_ex target_right]
    applyViewportClip_left_clamp_only [OF h1, of viewport_ex manager_ex target_left] h1
  show ?thesis
    by (simp add: v)
qed


section \<open>Position correction after a move request\<close>

lemma position_loop_control:
  "position_loop wsys tp vp True m n ws = (m', n', ws') \<Longrightarrow>
   m' = m \<and> length ws' = length ws"
proof (induction ws arbitrary: n m' n' ws')
  case Nil
  then show ?case by simp
next
  case (Cons w ws)
  then show ?case
    by (auto split: option.splits prod.splits)
qed

lemma position_loop_Cons:
  "snd (snd (position_loop wsys tp vp True m n (w # ws))) =
     (case tp (win_id w) of None \<Rightarrow> w | Some t \<Rightarrow> fst (position_window wsys m t vp n w))
     # snd (snd (position_loop wsys tp vp True m
          (case tp (win_id w) of None \<Rightarrow> n | Some t \<Rightarrow> snd (position_window wsys m t vp n w)) ws))"
  by (simp split: option.splits prod.splits)

lemma position_loop_nth:
  "i < length ws \<Longrightarrow> tp (win_id (ws ! i)) = Some t \<Longrightarrow>
   \<exists>k. snd (snd (position_loop wsys tp vp True m n ws)) ! i
         = fst (position_window wsys m t vp k (ws ! i))"
proof (induction ws arbitrary: n i)
  case Nil
  then show ?case by simp
next
  case (Cons w ws)
  show ?case
  proof (cases i)
    case 0
    with Cons.prems have "tp (win_id w) = Some t" by simp
    with 0 show ?thesis
      unfolding position_loop_Cons by auto
  next
    case (Suc j)
    with Cons.prems have j: "j < length ws" "tp (win_id (ws ! j)) = Some t"
      by simp_all
    from Cons.IH [OF j] Suc show ?thesis
      unfolding position_loop_Cons by simp
  qed
qed

lemma position_window_correction:
  "let targetFrameLeft = Math_floor (rect_x t + scrollOffset m);
       viewportLeft = Math_floor (vp_x vp);
       adjustedX = (if targetFrameLeft < viewportLeft then viewportLeft else targetFrameLeft);
       before = w\<lparr>compositor_private := map_option remove_all_transitions (compositor_private w)\<rparr>;
       frameAfter = fst (wsys before False adjustedX (rect_y t) (rect_width t) (rect_height t));
       dx = adjustedX - rect_x frameAfter;
       dy = Math_floor (rect_y t) - rect_y frameAfter;
       w' = fst (position_window wsys m t vp k w)
   in frame_rect w' = frameAfter \<and>
      (if \<bar>dx\<bar> \<le> 2 \<and> \<bar>dy\<bar> \<le> 2
       then mosaicPositionCorrectionX w' = Some 0 \<and> mosaicPositionCorrectionY w' = Some 0
       else mosaicPositionCorrectionX w' = Some dx \<and> mosaicPositionCorrectionY w' = Some dy)"
  by (simp add: position_window_def move_resize_frame_def Let_def Math_abs_def
      split: prod.splits)

text \<open>
  Claim C3, as the code has it. After a pass of \<open>updateWindowPositions\<close> with
  \<open>controlPositioning\<close> true, every window of the array that has a target position has
  the frame the window system gave it in answer to the request
  \<open>(adjustedX, target y, target width, target height)\<close>, and its stored correction is
  computed from that frame alone, whatever correction it carried before: with
  \<open>dx = adjustedX - frame x\<close> and \<open>dy = floor (target y) - frame y\<close>, the correction is
  zero on both axes when neither \<open>dx\<close> nor \<open>dy\<close> exceeds 2 in magnitude, and \<open>(dx, dy)\<close>
  otherwise. The vertical discrepancy is measured from the floored target y.
\<close>

theorem updateWindowPositions_correction:
  assumes "i < length ws"
    and "targetPositions tileInfo (win_id (ws ! i)) = Some targetPos"
  shows "let actualWorkArea =
               (case workArea of Some wa \<Rightarrow> wa | None \<Rightarrow> work_area_for_monitor wsp mon);
             targetFrameLeft = Math_floor (rect_x targetPos + scrollOffset m);
             viewportLeft = Math_floor (rect_x actualWorkArea);
             adjustedX = (if targetFrameLeft < viewportLeft then viewportLeft else targetFrameLeft);
             before = (ws ! i)\<lparr>compositor_private :=
                        map_option remove_all_transitions (compositor_private (ws ! i))\<rparr>;
             frameAfter = fst (wsys before False adjustedX (rect_y targetPos)
                                 (rect_width targetPos) (rect_height targetPos));
             dx = adjustedX - rect_x frameAfter;
             dy = Math_floor (rect_y targetPos) - rect_y frameAfter;
             ws' = snd (snd (updateWindowPositions wsys m n (Some ws) wsp mon tileInfo workArea True))
         in length ws' = length ws \<and>
            frame_rect (ws' ! i) = frameAfter \<and>
            (if \<bar>dx\<bar> \<le> 2 \<and> \<bar>dy\<bar> \<le> 2
             then mosaicPositionCorrectionX (ws' ! i) = Some 0 \<and>
                  mosaicPositionCorrectionY (ws' ! i) = Some 0
             else mosaicPositionCorrectionX (ws' ! i) = Some dx \<and>
                  mosaicPositionCorrectionY (ws' ! i) = Some dy)"
proof -
  define actualWorkArea where
    "actualWorkArea = (case workArea of Some wa \<Rightarrow> wa | None \<Rightarrow> work_area_for_monitor wsp mon)"
  define vp where "vp = \<lparr>vp_x = rect_x actualWorkArea, vp_width = rect_width actualWorkArea\<rparr>"
  define R where "R = position_loop wsys (targetPositions tileInfo) vp True m n ws"
  from assms(1) have ne: "ws \<noteq> []" by auto
  then have upd: "updateWindowPositions wsys m n (Some ws) wsp mon tileInfo workArea True = R"
    by (simp add: updateWindowPositions_def R_def vp_def actualWorkArea_def Let_def)
  have R: "position_loop wsys (targetPositions tileInfo) vp True m n ws
             = (fst R, fst (snd R), snd (snd R))"
    by (simp add: R_def)
  have len: "length (snd (snd R)) = length ws"
    using position_loop_control [OF R] by simp
  obtain k where k: "snd (snd R) ! i = fst (position_window wsys m targetPos vp k (ws ! i))"
    using position_loop_nth [of i ws "targetPositions tileInfo" targetPos wsys vp m n]
      assms unfolding R_def by blast
  have vpx: "vp_x vp = rect_x actualWorkArea"
    by (simp add: vp_def)
  show ?thesis
    using position_window_correction [of targetPos m vp "ws ! i" wsys k] len
    unfolding upd k [symmetric] vpx actualWorkArea_def Let_def
    by simp
qed

theorem updateWindowPositions_correction_witness:
  "0 < length [window_ex] \<and>
   targetPositions (Some tile_ex) (win_id ([window_ex] ! 0))
     = Some \<lparr> rect_x = 300, rect_y = 80, rect_width = 400, rect_height = 300 \<rparr> \<and>
   frame_rect (snd (snd (updateWindowPositions wsys_ignore manager_ex 1 (Some [window_ex])
       workspace_ex 0 (Some tile_ex) None True)) ! 0)
     = \<lparr> rect_x = 100, rect_y = 50, rect_width = 400, rect_height = 300 \<rparr> \<and>
   mosaicPositionCorrectionX (snd (snd (updateWindowPositions wsys_ignore manager_ex 1
       (Some [window_ex]) workspace_ex 0 (Some tile_ex) None True)) ! 0) = Some 200 \<and>
   mosaicPositionCorrectionY (snd (snd (updateWindowPositions wsys_ignore manager_ex 1
       (Some [window_ex]) workspace_ex 0 (Some tile_ex) None True)) ! 0) = Some 30"
proof -
  have h1: "0 < length [window_ex]" by simp
  have h2: "targetPositions (Some tile_ex) (win_id ([window_ex] ! 0))
     = Some \<lparr> rect_x = 300, rect_y = 80, rect_width = 400, rect_height = 300 \<rparr>"
    by (simp add: targetPositions_def tile_ex_def window_ex_def)
  show ?thesis
    using updateWindowPositions_correction [OF h1 h2, where workArea = None
        and wsp = workspace_ex and mon = 0 and m = manager_ex and wsys = wsys_ignore and n = 1] h2
    by (simp add: Let_def wsys_ignore_def window_ex_def workspace_ex_def wa0_def manager_ex_def
        Math_floor_def)
qed

text \<open>
  Claim C3 as stated measures the discrepancy from the requested position itself. The
  request below asks for y = 52.5 and the window stays at y = 50: the two differ by 2.5
  pixels, more than the tolerance, and yet the stored vertical correction is 0 and not 2.5,
  because the code compares \<open>floor 52.5 - 50 = 2\<close> with the tolerance.
\<close>

theorem correction_half_pixel_counterexample:
  "map_option rect_x (targetPositions (Some tile_half_pixel) 7) = Some 100 \<and>
   map_option rect_y (targetPositions (Some tile_half_pixel) 7) = Some (105 / 2) \<and>
   rect_x (frame_rect (snd (snd (updateWindowPositions wsys_ignore manager_ex 1
       (Some [window_ex]) workspace_ex 0 (Some tile_half_pixel) None True)) ! 0)) = 100 \<and>
   rect_y (frame_rect (snd (snd (updateWindowPositions wsys_ignore manager_ex 1
       (Some [window_ex]) workspace_ex 0 (Some tile_half_pixel) None True)) ! 0)) = 50 \<and>
   \<not> \<bar>105 / 2 - 50\<bar> \<le> (2::real) \<and>
   mosaicPositionCorrectionX (snd (snd (updateWindowPositions wsys_ignore manager_ex 1
       (Some [window_ex]) workspace_ex 0 (Some tile_half_pixel) None True)) ! 0) = Some 0 \<and>
   mosaicPositionCorrectionY (snd (snd (updateWindowPositions wsys_ignore manager_ex 1
       (Some [window_ex]) workspace_ex 0 (Some tile_half_pixel) None True)) ! 0) = Some 0 \<and>
   mosaicPositionCorrectionY (snd (snd (updateWindowPositions wsys_ignore manager_ex 1
       (Some [window_ex]) workspace_ex 0 (Some tile_half_pixel) None True)) ! 0)
     \<noteq> Some (105 / 2 - 50)"
  by (simp add: updateWindowPositions_def targetPositions_def tile_half_pixel_def window_ex_def
      position_window_def move_resize_frame_def wsys_ignore_def workspace_ex_def wa0_def
      manager_ex_def Math_floor_def Math_abs_def Let_def)

section \<open>Scrolling by the fixed step\<close>

lemma filter_raising_retile:
  "filter_raising retile_filter_callback aw =
     (if list_all skip_taskbar aw then Inr [] else Inl (ReferenceError ''Meta''))"
  by (induction aw) (simp_all add: retile_filter_callback_def)

lemma requestRetile_manager: "fst (requestRetile aw m) = m"
  by (simp add: requestRetile_def filter_raising_retile)

lemma requestRetile_raises:
  "snd (requestRetile aw m) =
     (if has_tileManager m \<and> \<not> list_all skip_taskbar aw
      then Some (ReferenceError ''Meta'') else None)"
  by (simp add: requestRetile_def filter_raising_retile)

lemma scrollRight_steps:
  "scrollOffset m = real a \<Longrightarrow> scrollStep m = real s \<Longrightarrow> a + k * s < 2 ^ 53 \<Longrightarrow>
   scrollOffset (((\<lambda>m. fst (scrollRight aw m)) ^^ k) m) = real (a + k * s) \<and>
   scrollStep (((\<lambda>m. fst (scrollRight aw m)) ^^ k) m) = real s"
proof (induction k)
  case 0
  then show ?case by simp
next
  case (Suc k)
  from Suc.prems(3) have small: "a + k * s < 2 ^ 53" and next_small: "(a + k * s) + s < 2 ^ 53"
    by (simp_all add: add.assoc add.commute)
  from Suc.IH [OF Suc.prems(1) Suc.prems(2) small]
  have off: "scrollOffset (((\<lambda>m. fst (scrollRight aw m)) ^^ k) m) = real (a + k * s)"
    and step: "scrollStep (((\<lambda>m. fst (scrollRight aw m)) ^^ k) m) = real s"
    by simp_all
  have "double_add (real (a + k * s)) (real s) = real ((a + k * s) + s)"
    using round_double_nat [OF next_small] by (simp add: double_add_def)
  with off step show ?case
    by (simp add: scrollRight_def requestRetile_manager add.assoc add.commute)
qed

text \<open>
  Claim C4, at concrete inputs. Two calls of \<open>scrollRight\<close> with step 20 from offset 0
  leave the offset at 40, and one call of \<open>scrollLeft\<close> leaves it at -20. With a tile
  manager set and a window that the taskbar does not skip, the call raises a
  \<open>ReferenceError\<close> and no retile is requested. The offset is not clamped: on a 1280
  pixel wide work area with a pan ratio of one half the right limit is 640, and 33 calls of
  \<open>scrollRight\<close> leave the offset at 660, where the clamp of the animated path would
  give 640.
\<close>

theorem scrollRight_leaves_canvas_bounds:
  "scrollOffset (fst (scrollRight [window_ex] (fst (scrollRight [window_ex] manager_ex)))) = 40 \<and>
   scrollOffset (fst (scrollLeft [window_ex] manager_ex)) = - 20 \<and>
   snd (scrollRight [window_ex] manager_ex) = Some (ReferenceError ''Meta'') \<and>
   tile_requests (fst (scrollRight [window_ex] manager_ex)) = [] \<and>
   scrollOffset (((\<lambda>m. fst (scrollRight [window_ex] m)) ^^ 33) manager_ex) = 660 \<and>
   rect_width wa0 * CANVAS_PAN_RIGHT c0 = 640 \<and>
   clampViewportX c0 660 wa0 = 640"
proof -
  have start: "scrollOffset manager_ex = real 0" "scrollStep manager_ex = real 20"
    by (simp_all add: manager_ex_def)
  have two: "fst (scrollRight [window_ex] (fst (scrollRight [window_ex] manager_ex)))
             = ((\<lambda>m. fst (scrollRight [window_ex] m)) ^^ 2) manager_ex"
    by (simp add: numeral_2_eq_2)
  have s2: "scrollOffset (((\<lambda>m. fst (scrollRight [window_ex] m)) ^^ 2) manager_ex) = 40"
    using scrollRight_steps [OF start, of 2 "[window_ex]"] by simp
  have s33: "scrollOffset (((\<lambda>m. fst (scrollRight [window_ex] m)) ^^ 33) manager_ex) = 660"
    using scrollRight_steps [OF start, of 33 "[window_ex]"] by simp
  have left: "scrollOffset (fst (scrollLeft [window_ex] manager_ex)) = - 20"
  proof -
    have "round_double (- 20) = - 20"
      using round_double_of_int [of "- 20"] by simp
    then show ?thesis
      by (simp add: scrollLeft_def requestRetile_manager manager_ex_def double_sub_def)
  qed
  have raised: "snd (scrollRight [window_ex] manager_ex) = Some (ReferenceError ''Meta'')"
    by (simp add: scrollRight_def requestRetile_raises manager_ex_def window_ex_def)
  have none: "tile_requests (fst (scrollRight [window_ex] manager_ex)) = []"
    by (simp add: scrollRight_def requestRetile_manager manager_ex_def)
  have limit: "rect_width wa0 * CANVAS_PAN_RIGHT c0 = 640" "clampViewportX c0 660 wa0 = 640"
    by (simp_all add: c0_def wa0_def clampViewportX_def Math_max_def Math_min_def)
  show ?thesis
    unfolding two using s2 s33 left raised none limit by simp
qed

section \<open>Convergence of the scroll animation\<close>

lemma animateStep_finished:
  assumes "\<not> progress_less_than_1
      (animation_progress (double_sub (double_div now 1000) (anim_startTime a)) (anim_duration a))"
  shows "\<exists>w'. animateStep a now w = Some w' \<and>
           scrollAnimationId (manager w') = None \<and>
           viewportX (canvas w') = anim_targetX a \<and>
           scrollOffset (manager w') = anim_targetX a"
proof (cases "animation_progress (double_sub (double_div now 1000) (anim_startTime a))
    (anim_duration a)")
  case (Progress p)
  with assms have "\<not> p < 1" by simp
  with Progress show ?thesis
    by (simp add: animateStep_def Let_def applyViewport_def request_tiling_def)
next
  case ProgressNaN
  then show ?thesis
    by (simp add: animateStep_def Let_def applyViewport_def request_tiling_def)
next
  case ProgressMinusInfinity
  with assms show ?thesis by simp
qed

lemma animateStep_rearmed:
  assumes "anim_duration a \<noteq> 0"
    and "progress_less_than_1
      (animation_progress (double_sub (double_div now 1000) (anim_startTime a)) (anim_duration a))"
  shows "\<exists>w'. animateStep a now w = Some w' \<and>
           scrollAnimationId (manager w') = Some (next_source_id w) \<and>
           timeouts w' (next_source_id w) = Some a"
proof -
  from assms(1) obtain p where p: "animation_progress
      (double_sub (double_div now 1000) (anim_startTime a)) (anim_duration a) = Progress p"
    by (simp add: animation_progress_def)
  with assms(2) have "p < 1" by simp
  with p show ?thesis
    by (simp add: animateStep_def Let_def applyViewport_def request_tiling_def timeout_add_def)
qed

lemma run_ticks_finished:
  "scrollAnimationId (manager w) = None \<Longrightarrow> run_ticks ticks w = Some w"
  by (cases ticks) simp_all

lemma run_ticks_pending:
  "anim_duration a \<noteq> 0 \<Longrightarrow>
   scrollAnimationId (manager w) = Some sid \<Longrightarrow> timeouts w sid = Some a \<Longrightarrow>
   \<exists>now \<in> set ticks. \<not> progress_less_than_1
      (animation_progress (double_sub (double_div now 1000) (anim_startTime a)) (anim_duration a)) \<Longrightarrow>
   \<exists>w'. run_ticks ticks w = Some w' \<and>
     scrollAnimationId (manager w') = None \<and>
     viewportX (canvas w') = anim_targetX a \<and>
     scrollOffset (manager w') = anim_targetX a"
proof (induction ticks arbitrary: w sid)
  case Nil
  then show ?case by simp
next
  case (Cons now later)
  let ?p = "animation_progress (double_sub (double_div now 1000) (anim_startTime a))
      (anim_duration a)"
  have step: "run_ticks (now # later) w =
      (case animateStep a now (source_remove sid w) of
         None \<Rightarrow> None | Some w' \<Rightarrow> run_ticks later w')"
    using Cons.prems(2,3) by (simp add: fire_timeout_def)
  show ?case
  proof (cases "progress_less_than_1 ?p")
    case False
    from animateStep_finished [OF False, of "source_remove sid w"]
    obtain w1 where w1: "animateStep a now (source_remove sid w) = Some w1"
      "scrollAnimationId (manager w1) = None" "viewportX (canvas w1) = anim_targetX a"
      "scrollOffset (manager w1) = anim_targetX a"
      by blast
    then show ?thesis
      unfolding step by (simp add: run_ticks_finished)
  next
    case True
    with Cons.prems(4)
    have later: "\<exists>now \<in> set later. \<not> progress_less_than_1
        (animation_progress (double_sub (double_div now 1000) (anim_startTime a)) (anim_duration a))"
      by auto
    from animateStep_rearmed [OF Cons.prems(1) True, of "source_remove sid w"]
    obtain w1 where w1: "animateStep a now (source_remove sid w) = Some w1"
      "scrollAnimationId (manager w1) = Some (next_source_id (source_remove sid w))"
      "timeouts w1 (next_source_id (source_remove sid w)) = Some a"
      by blast
    from Cons.IH [OF Cons.prems(1) w1(2) w1(3) later] show ?thesis
      unfolding step by (simp add: w1(1))
  qed
qed

lemma scrollTo_animate:
  "scrollTo c target True t_start t_first w =
     animateStep
       \<lparr> anim_startX = viewportX (canvas w),
         anim_deltaX =
           double_sub (clampViewportX c target (state_workArea (canvas w))) (viewportX (canvas w)),
         anim_targetX = clampViewportX c target (state_workArea (canvas w)),
         anim_duration = VIEWPORT_SCROLL_DURATION_MS c,
         anim_startTime = double_div t_start 1000 \<rparr>
       t_first
       (case scrollAnimationId (manager w) of
          Some sid \<Rightarrow> (source_remove sid w)\<lparr>manager := (manager w)\<lparr>scrollAnimationId := None\<rparr>\<rparr>
        | None \<Rightarrow> w)"
  by (simp add: scrollTo_def Let_def source_remove_def split: option.splits)

lemma elapsed_nonneg:
  assumes "t_start \<le> t"
  shows "\<not> double_sub (double_div t 1000) (double_div t_start 1000) < 0"
proof -
  from assms have "t_start / 1000 \<le> t / 1000" by simp
  then have "double_div t_start 1000 \<le> double_div t 1000"
    unfolding double_div_def by (rule round_double_mono)
  then have "0 \<le> double_div t 1000 - double_div t_start 1000" by simp
  then have "0 \<le> double_sub (double_div t 1000) (double_div t_start 1000)"
    unfolding double_sub_def by (rule round_double_nonneg)
  then show ?thesis by simp
qed

text \<open>
  Claim C8. Let \<open>scrollTo\<close> be called with \<open>animate\<close> true, and let one of the clock
  readings of its ticks (the first tick, made by \<open>scrollTo\<close> itself, or a later one) end
  the animation, that is, make the test \<open>progress < 1\<close> fail. Then the ticks run to their
  end, and after them the state's viewport offset and the manager's scroll offset are
  exactly the clamped target, whatever the starting offset was, and the animation handle is
  cleared. For a duration of zero the first reading is taken not to lie before the start
  reading, as the monotonic clock guarantees; the animation then ends on the first tick.
\<close>

theorem scrollTo_animation_converges:
  assumes "VIEWPORT_SCROLL_DURATION_MS c = 0 \<longrightarrow> t_start \<le> t_first"
    and "\<exists>now \<in> set (t_first # ticks). \<not> progress_less_than_1
           (animation_progress (double_sub (double_div now 1000) (double_div t_start 1000))
              (VIEWPORT_SCROLL_DURATION_MS c))"
  shows "\<exists>final. Option.bind (scrollTo c target True t_start t_first w) (run_ticks ticks)
             = Some final \<and>
           viewportX (canvas final) = clampViewportX c target (state_workArea (canvas w)) \<and>
           scrollOffset (manager final) = clampViewportX c target (state_workArea (canvas w)) \<and>
           scrollAnimationId (manager final) = None"
proof -
  define a where "a =
       \<lparr> anim_startX = viewportX (canvas w),
         anim_deltaX =
           double_sub (clampViewportX c target (state_workArea (canvas w))) (viewportX (canvas w)),
         anim_targetX = clampViewportX c target (state_workArea (canvas w)),
         anim_duration = VIEWPORT_SCROLL_DURATION_MS c,
         anim_startTime = double_div t_start 1000 \<rparr>"
  define w1 where "w1 =
       (case scrollAnimationId (manager w) of
          Some sid \<Rightarrow> (source_remove sid w)\<lparr>manager := (manager w)\<lparr>scrollAnimationId := None\<rparr>\<rparr>
        | None \<Rightarrow> w)"
  have start: "scrollTo c target True t_start t_first w = animateStep a t_first w1"
    unfolding a_def w1_def by (rule scrollTo_animate)
  have a_simps: "anim_targetX a = clampViewportX c target (state_workArea (canvas w))"
    "anim_duration a = VIEWPORT_SCROLL_DURATION_MS c" "anim_startTime a = double_div t_start 1000"
    by (simp_all add: a_def)
  let ?p = "\<lambda>now. animation_progress (double_sub (double_div now 1000) (anim_startTime a))
      (anim_duration a)"
  have first_if_instant: "\<not> progress_less_than_1 (?p t_first)" if "anim_duration a = 0"
  proof -
    from that assms(1) have "t_start \<le> t_first" by (simp add: a_simps)
    from elapsed_nonneg [OF this] that show ?thesis
      by (simp add: animation_progress_def a_simps)
  qed
  show ?thesis
  proof (cases "progress_less_than_1 (?p t_first)")
    case False
    from animateStep_finished [OF False, of w1]
    obtain w2 where "animateStep a t_first w1 = Some w2"
      "scrollAnimationId (manager w2) = None" "viewportX (canvas w2) = anim_targetX a"
      "scrollOffset (manager w2) = anim_targetX a"
      by blast
    then show ?thesis
      unfolding start by (simp add: run_ticks_finished a_simps)
  next
    case True
    with first_if_instant have dur: "anim_duration a \<noteq> 0" by blast
    from True assms(2)
    have later: "\<exists>now \<in> set ticks. \<not> progress_less_than_1 (?p now)"
      by (auto simp add: a_simps)
    from animateStep_rearmed [OF dur True, of w1]
    obtain w2 where w2: "animateStep a t_first w1 = Some w2"
      "scrollAnimationId (manager w2) = Some (next_source_id w1)"
      "timeouts w2 (next_source_id w1) = Some a"
      by blast
    from run_ticks_pending [OF dur w2(2) w2(3) later] show ?thesis
      unfolding start by (auto simp add: w2(1) a_simps)
  qed
qed

text \<open>
  The end value is the stored target and not the interpolated one: from the offset
  387.61856 to the target -640 the interpolation at progress 1 gives -639.9999999999999.
\<close>

lemma eased_end_value_misses_target:
  "double_add offset_387 (double_mul (double_sub (- 640) offset_387) 1)
     = - (5629499534213119 / 8796093022208) \<and>
   double_add offset_387 (double_mul (double_sub (- 640) offset_387) 1) \<noteq> - 640"
proof -
  have d1: "double_sub (- 640) offset_387 = - (1129878555638429 / 1099511627776)"
    unfolding double_sub_def offset_387_def
    by (rule round_double_eval [where k = 42 and m = "- 4519514222553716"])
      (simp_all add: round_half_even_def subnormal_bits_def)
  have d2: "double_mul (- (1129878555638429 / 1099511627776)) 1 = - (1129878555638429 / 1099511627776)"
    unfolding double_mul_def
    by (rule round_double_eval [where k = 42 and m = "- 4519514222553716"])
      (simp_all add: round_half_even_def subnormal_bits_def)
  have d3: "double_add offset_387 (- (1129878555638429 / 1099511627776)) = - (5629499534213119 / 8796093022208)"
    unfolding double_add_def offset_387_def
    by (rule round_double_eval [where k = 43 and m = "- 5629499534213119"])
      (simp_all add: round_half_even_def subnormal_bits_def)
  show ?thesis
    by (simp add: d1 d2 d3)
qed

theorem scrollTo_animation_converges_witness:
  "VIEWPORT_SCROLL_DURATION_MS c0 = 250 \<and>
   VIEWPORT_SCROLL_DURATION_MS c_instant = 0 \<and>
   (5000000::real) \<le> 5000000 \<and>
   (\<exists>now \<in> set (5000000 # [5016000, 5120000, 5250000, 5266000]). \<not> progress_less_than_1
      (animation_progress (double_sub (double_div now 1000) (double_div 5000000 1000))
         (VIEWPORT_SCROLL_DURATION_MS c0))) \<and>
   viewportX (canvas world_ex) = offset_387 \<and>
   map_option (\<lambda>w. viewportX (canvas w))
     (Option.bind (scrollTo c0 (- 1000) True 5000000 5000000 world_ex)
        (run_ticks [5016000, 5120000, 5250000, 5266000])) = Some (- 640) \<and>
   map_option (\<lambda>w. scrollOffset (manager w))
     (Option.bind (scrollTo c0 (- 1000) True 5000000 5000000 world_ex)
        (run_ticks [5016000, 5120000, 5250000, 5266000])) = Some (- 640) \<and>
   map_option (\<lambda>w. scrollAnimationId (manager w))
     (Option.bind (scrollTo c0 (- 1000) True 5000000 5000000 world_ex)
        (run_ticks [5016000, 5120000, 5250000, 5266000])) = Some None \<and>
   map_option (\<lambda>w. viewportX (canvas w))
     (Option.bind (scrollTo c_instant (- 1000) True 5000000 5000000 world_ex)
        (run_ticks [])) = Some (- 640)"
proof -
  have h1: "VIEWPORT_SCROLL_DURATION_MS c0 = 0 \<longrightarrow> (5000000::real) \<le> 5000000"
    by simp
  have end_tick: "\<not> progress_less_than_1
      (animation_progress (double_sub (double_div 5250000 1000) (double_div 5000000 1000))
         (VIEWPORT_SCROLL_DURATION_MS c0))"
    by (simp add: animation_progress_def c0_def double_div_def double_sub_def
        round_double_numeral round_double_1 Math_min_def)
  then have h2: "\<exists>now \<in> set (5000000 # [5016000, 5120000, 5250000, 5266000]).
      \<not> progress_less_than_1
      (animation_progress (double_sub (double_div now 1000) (double_div 5000000 1000))
         (VIEWPORT_SCROLL_DURATION_MS c0))"
    by simp
  have g1: "VIEWPORT_SCROLL_DURATION_MS c_instant = 0 \<longrightarrow> (5000000::real) \<le> 5000000"
    by simp
  have g2: "\<exists>now \<in> set (5000000 # []). \<not> progress_less_than_1
      (animation_progress (double_sub (double_div now 1000) (double_div 5000000 1000))
         (VIEWPORT_SCROLL_DURATION_MS c_instant))"
    by (simp add: animation_progress_def c_instant_def double_div_def double_sub_def
        round_double_numeral round_double_0)
  have v: "clampViewportX c0 (- 1000) (state_workArea (canvas world_ex)) = - 640"
    "clampViewportX c_instant (- 1000) (state_workArea (canvas world_ex)) = - 640"
    "viewportX (canvas world_ex) = offset_387"
    by (simp_all add: c0_def c_instant_def world_ex_def state_ex_def new_CanvasState_def wa0_def
        clampViewportX_def Math_max_def Math_min_def)
  from scrollTo_animation_converges [OF h1 h2, of "- 1000" world_ex]
  obtain final where final:
    "Option.bind (scrollTo c0 (- 1000) True 5000000 5000000 world_ex)
       (run_ticks [5016000, 5120000, 5250000, 5266000]) = Some final"
    "viewportX (canvas final) = - 640" "scrollOffset (manager final) = - 640"
    "scrollAnimationId (manager final) = None"
    unfolding v by blast
  from scrollTo_animation_converges [OF g1 g2, of "- 1000" world_ex]
  obtain final' where final':
    "Option.bind (scrollTo c_instant (- 1000) True 5000000 5000000 world_ex) (run_ticks [])
       = Some final'"
    "viewportX (canvas final') = - 640"
    unfolding v by blast
  have durations: "VIEWPORT_SCROLL_DURATION_MS c0 = 250"
    "VIEWPORT_SCROLL_DURATION_MS c_instant = 0" "(5000000::real) \<le> 5000000"
    by (simp_all add: c0_def c_instant_def)
  from durations h2 v(3) show ?thesis
    by (simp only: final final' option.map simp_thms)
qed

section \<open>Windows without recorded state\<close>

lemmas WindowState_defs = WindowState_get_def WindowState_has_def WindowState_set_def
  WindowState_remove_def WindowState_clear_def WindowState_getState_def

lemma do_call_other_window:
  "call_window c \<noteq> w \<Longrightarrow> do_call s c w = s w"
  by (cases c) (simp_all add: WindowState_defs split: option.splits)

lemma do_call_absent:
  "s w = None \<Longrightarrow> \<not> is_set_on w c \<Longrightarrow> do_call s c w = None"
  by (cases c) (auto simp add: WindowState_defs split: option.splits)

lemma do_calls_absent:
  "s w = None \<Longrightarrow> \<forall>c \<in> set calls. \<not> is_set_on w c \<Longrightarrow> do_calls calls s w = None"
proof (induction calls arbitrary: s)
  case Nil
  then show ?case by (simp add: do_calls_def)
next
  case (Cons c calls)
  from Cons.prems have "do_call s c w = None"
    by (simp add: do_call_absent)
  with Cons.IH [of "do_call s c"] Cons.prems(2) show ?case
    by (simp add: do_calls_def)
qed

lemma absent_reads:
  "s w = None \<Longrightarrow> WindowState_get proto s w p = Undefined \<and> \<not> WindowState_has proto s w p"
  by (simp add: WindowState_defs)

text \<open>
  Claim C9. For a window on which \<open>set\<close> was never called since the store was created,
  and for a window on which \<open>clear\<close> was called with no \<open>set\<close> on it afterwards,
  \<open>get\<close> returns undefined and \<open>has\<close> returns false for every property, also for a
  property name that \<open>Object.prototype\<close> defines. A call on one window changes nothing of
  what \<open>get\<close>, \<open>has\<close> and \<open>getState\<close> answer for another window.
\<close>

text \<open>
  Reads of a window that has no state object. For a window on which \<open>set\<close> was never
  called since the store was created, and for a window on which \<open>clear\<close> was called with
  no \<open>set\<close> on it afterwards, \<open>get\<close> returns undefined and \<open>has\<close> returns false for
  every property. A call on one window changes nothing of what \<open>get\<close>, \<open>has\<close> and
  \<open>getState\<close> answer for another window.
\<close>

lemma windowState_absent_reads:
  "((\<forall>c \<in> set calls. \<not> is_set_on w c) \<longrightarrow>
      WindowState_get proto (do_calls calls windowStates_initial) w p = Undefined \<and>
      \<not> WindowState_has proto (do_calls calls windowStates_initial) w p) \<and>
   ((\<forall>c \<in> set later. \<not> is_set_on w c) \<longrightarrow>
      WindowState_get proto (do_calls (earlier @ CallClear w # later) s) w p = Undefined \<and>
      \<not> WindowState_has proto (do_calls (earlier @ CallClear w # later) s) w p) \<and>
   (call_window c \<noteq> w \<longrightarrow>
      WindowState_get proto (do_call s c) w p = WindowState_get proto s w p \<and>
      WindowState_has proto (do_call s c) w p = WindowState_has proto s w p \<and>
      WindowState_getState (do_call s c) w = WindowState_getState s w)"
proof (intro conjI impI)
  assume "\<forall>c \<in> set calls. \<not> is_set_on w c"
  then have "do_calls calls windowStates_initial w = None"
    by (simp add: do_calls_absent windowStates_initial_def)
  then show "WindowState_get proto (do_calls calls windowStates_initial) w p = Undefined"
    and "\<not> WindowState_has proto (do_calls calls windowStates_initial) w p"
    by (simp_all add: absent_reads)
next
  assume later: "\<forall>c \<in> set later. \<not> is_set_on w c"
  have "do_call (do_calls earlier s) (CallClear w) w = None"
    by (simp add: WindowState_clear_def)
  with later have "do_calls later (do_call (do_calls earlier s) (CallClear w)) w = None"
    by (simp add: do_calls_absent)
  then have "do_calls (earlier @ CallClear w # later) s w = None"
    by (simp add: do_calls_def)
  then show "WindowState_get proto (do_calls (earlier @ CallClear w # later) s) w p = Undefined"
    and "\<not> WindowState_has proto (do_calls (earlier @ CallClear w # later) s) w p"
    by (simp_all add: absent_reads)
next
  assume "call_window c \<noteq> w"
  then have same: "do_call s c w = s w"
    by (rule do_call_other_window)
  show "WindowState_get proto (do_call s c) w p = WindowState_get proto s w p"
    by (simp add: WindowState_get_def same)
  show "WindowState_has proto (do_call s c) w p = WindowState_has proto s w p"
    by (simp add: WindowState_has_def same)
  show "WindowState_getState (do_call s c) w = WindowState_getState s w"
    by (simp add: WindowState_getState_def same)
qed

lemma do_calls_emptied_bag:
  "do_calls emptied_bag_calls (windowStates_initial :: (nat, int) WindowStates) 1 = Some Map.empty"
  by (simp add: do_calls_def emptied_bag_calls_def windowStates_initial_def WindowState_set_def
      WindowState_remove_def)

lemma windowStates_initial_absent:
  "(windowStates_initial :: (nat, int) WindowStates) 1 = None"
  by (simp add: windowStates_initial_def)

text \<open>
  Claim C9, at a concrete input. A window whose state object has been emptied (a property
  set and then removed) does not read like a window without recorded state: for the
  property name \<open>toString\<close>, which \<open>Object.prototype\<close> defines and which was never set,
  \<open>has\<close> returns true and \<open>get\<close> returns the inherited value, while for the window
  without state \<open>has\<close> returns false and \<open>get\<close> returns undefined.
\<close>

theorem windowState_emptied_bag_differs:
  "WindowState_getState (do_calls emptied_bag_calls windowStates_initial) 1 = Some Map.empty \<and>
   WindowState_has proto_ex (do_calls emptied_bag_calls windowStates_initial) 1 ''toString'' \<and>
   WindowState_get proto_ex (do_calls emptied_bag_calls windowStates_initial) 1 ''toString''
     = Value 0 \<and>
   WindowState_getState (windowStates_initial :: (nat, int) WindowStates) 1 = None \<and>
   \<not> WindowState_has proto_ex (windowStates_initial :: (nat, int) WindowStates) 1 ''toString'' \<and>
   WindowState_get proto_ex (windowStates_initial :: (nat, int) WindowStates) 1 ''toString''
     = Undefined"
  unfolding WindowState_getState_def WindowState_has_def WindowState_get_def
    do_calls_emptied_bag windowStates_initial_absent
  by (simp add: proto_ex_def)


section \<open>Full and partial visibility\<close>

text \<open>
  Claim C10. \<open>isWindowFullyVisible\<close> and \<open>isWindowPartiallyVisible\<close> are never both true
  of the same window and manager, whether both are asked of the same manager or one after
  the other; both are false for a null window; and a window is partially visible exactly
  when its horizontal extent overlaps the viewport and it is not fully visible.
\<close>

theorem visibility_exclusive:
  "\<not> (fst (isWindowFullyVisible m mw) \<and> fst (isWindowPartiallyVisible m mw)) \<and>
   \<not> (fst (isWindowFullyVisible m mw)
        \<and> fst (isWindowPartiallyVisible (snd (isWindowFullyVisible m mw)) mw)) \<and>
   \<not> (fst (isWindowPartiallyVisible m mw)
        \<and> fst (isWindowFullyVisible (snd (isWindowPartiallyVisible m mw)) mw)) \<and>
   fst (isWindowFullyVisible m None) = False \<and>
   fst (isWindowPartiallyVisible m None) = False \<and>
   fst (isWindowPartiallyVisible m (Some w)) =
     ((rect_x (frame_rect w)
         < rect_x (work_area_for_monitor (win_workspace w) (win_monitor w))
           + viewportX (fst (getCanvasState m (win_monitor w) (win_workspace w)))
           + rect_width (work_area_for_monitor (win_workspace w) (win_monitor w))
       \<and> rect_x (frame_rect w) + rect_width (frame_rect w)
         > rect_x (work_area_for_monitor (win_workspace w) (win_monitor w))
           + viewportX (fst (getCanvasState m (win_monitor w) (win_workspace w))))
      \<and> \<not> fst (isWindowFullyVisible m (Some w)))"
  by (cases mw)
    (auto simp add: isWindowFullyVisible_def isWindowPartiallyVisible_def getCanvasState_def
      Let_def new_CanvasState_def split: option.splits prod.splits)


end
